theory Spec2Isabelle
  imports Complex_Main "HOL-Library.AList" "HOL-Library.Multiset"
begin

section \<open>JavaScript values\<close>

text \<open>
  A JavaScript string is a sequence of UTF-16 code units; the relational operators compare
  strings code unit by code unit.  The labels of the application use characters outside
  ASCII, so a string is modelled as the list of its code units.

  Numbers are IEEE doubles in the source.  The calculations are modelled twice.  The first
  model computes with exact reals: rounding, overflow and the literal \<open>Infinity\<close> have no
  counterpart there, and the one operation whose result leaves the finite numbers on finite
  arguments, a division by zero, is a fault of its own, so that the guard in front of it is
  visible.  The checks of the batch turn on the sign of a difference of parsed amounts, on
  what an amount that is not a number is read as, and on infinite amounts; for them the
  batch is modelled a second time over the binary64 values themselves.
\<close>

type_synonym jsstring = "nat list"

definition ascii :: "string \<Rightarrow> jsstring" where
  "ascii s = map of_char s"

definition isDigit :: "nat \<Rightarrow> bool" where
  "isDigit c \<longleftrightarrow> 48 \<le> c \<and> c \<le> 57"

text \<open>White space and line terminators that \<open>parseFloat\<close> and \<open>parseInt\<close> skip.\<close>

definition isWhiteSpace :: "nat \<Rightarrow> bool" where
  "isWhiteSpace c \<longleftrightarrow>
     c \<in> {9, 10, 11, 12, 13, 32, 160, 5760, 8232, 8233, 8239, 8287, 12288, 65279}
     \<or> (8192 \<le> c \<and> c \<le> 8202)"

definition digitsValue :: "nat list \<Rightarrow> nat" where
  "digitsValue ds = foldl (\<lambda>a c. 10 * a + (c - 48)) 0 ds"

text \<open>An optional sign in front of a numeric literal: the factor and the rest.\<close>

fun takeSign :: "jsstring \<Rightarrow> int \<times> jsstring" where
  "takeSign [] = (1, [])"
| "takeSign (c # r) = (if c = 45 then (-1, r) else if c = 43 then (1, r) else (1, c # r))"

text \<open>The exponent part \<open>e[+-]digits\<close> of a decimal literal; 0 when there is none.\<close>

fun exponentPart :: "jsstring \<Rightarrow> int" where
  "exponentPart [] = 0"
| "exponentPart (c # r) =
     (if c = 101 \<or> c = 69
      then (let (sg, d) = takeSign r; ds = takeWhile isDigit d
            in if ds = [] then 0 else sg * int (digitsValue ds))
      else 0)"

definition pow10 :: "int \<Rightarrow> real" where
  "pow10 e = (if 0 \<le> e then 10 ^ nat e else 1 / 10 ^ nat (- e))"

text \<open>
  \<open>parseFloat\<close>: the longest prefix, after leading white space, that is a decimal literal;
  \<open>None\<close> is NaN.
\<close>

definition parseFloat :: "jsstring \<Rightarrow> real option" where
  "parseFloat s =
     (let (sg, u) = takeSign (dropWhile isWhiteSpace s);
          ip = takeWhile isDigit u;
          r1 = dropWhile isDigit u;
          (fp, r2) = (case r1 of
                        [] \<Rightarrow> ([], [])
                      | c # r \<Rightarrow> if c = 46 then (takeWhile isDigit r, dropWhile isDigit r)
                                 else ([], r1))
      in if ip = [] \<and> fp = [] then None
         else Some (real_of_int sg
                    * (real (digitsValue ip) + real (digitsValue fp) / 10 ^ length fp)
                    * pow10 (exponentPart r2)))"

text \<open>\<open>parseInt(s, 10)\<close>: leading white space, an optional sign, decimal digits.\<close>

definition parseInt :: "jsstring \<Rightarrow> int option" where
  "parseInt s =
     (let (sg, u) = takeSign (dropWhile isWhiteSpace s);
          ds = takeWhile isDigit u
      in if ds = [] then None else Some (sg * int (digitsValue ds)))"

text \<open>\<open>x || 0\<close> on a number: NaN and 0 are falsy.\<close>

definition orZero :: "'a::zero option \<Rightarrow> 'a" where
  "orZero x = (case x of None \<Rightarrow> 0 | Some v \<Rightarrow> v)"

text \<open>Number to string, for integral values: decimal digits, a minus sign when negative.\<close>

fun natToString :: "nat \<Rightarrow> jsstring" where
  "natToString n = (if n < 10 then [48 + n] else natToString (n div 10) @ [48 + n mod 10])"

declare natToString.simps [simp del]

definition numberToString :: "int \<Rightarrow> jsstring" where
  "numberToString i = (if i < 0 then 45 # natToString (nat (- i)) else natToString (nat i))"

text \<open>\<open>s.padStart(2, '0')\<close>.\<close>

definition padStart2 :: "jsstring \<Rightarrow> jsstring" where
  "padStart2 s = replicate (2 - length s) 48 @ s"

text \<open>\<open>a < b\<close> and \<open>a <= b\<close> on strings.\<close>

fun str_less :: "jsstring \<Rightarrow> jsstring \<Rightarrow> bool" where
  "str_less [] [] = False"
| "str_less [] (y # ys) = True"
| "str_less (x # xs) [] = False"
| "str_less (x # xs) (y # ys) = (x < y \<or> (x = y \<and> str_less xs ys))"

definition str_le :: "jsstring \<Rightarrow> jsstring \<Rightarrow> bool" where
  "str_le a b \<longleftrightarrow> \<not> str_less b a"

text \<open>
  Division.  The quotient by zero is not a finite number; the model reports it instead of
  computing with it.
\<close>

datatype jsfault = DivisionByZero

definition js_divide :: "real \<Rightarrow> real \<Rightarrow> jsfault + real" where
  "js_divide a b = (if b = 0 then Inl DivisionByZero else Inr (a / b))"

section \<open>Numbers as binary64 values\<close>

text \<open>
  The Number type: the finite binary64 values, as the reals they denote, the two infinities
  and NaN.  The two zeros are one value here; the code modelled over these values never
  produces the negative one (a parsed \<open>-0\<close> meets \<open>|| 0\<close>, sums start from \<open>0\<close>, and a
  difference of equal values is the positive zero).
\<close>

datatype jsnum = Fin real | PInf | NInf | NaN

text \<open>Rounding to the nearest integer, a tie going to the even one.\<close>

definition roundHalfEven :: "real \<Rightarrow> int" where
  "roundHalfEven q =
     (let n = \<lfloor>q\<rfloor>; r = q - real_of_int n
      in if r < 1 / 2 then n else if 1 / 2 < r then n + 1 else if even n then n else n + 1)"

text \<open>
  The Number value for a real: the binary64 value nearest to it, a tie going to the even
  significand.  Between \<open>2^e\<close> and \<open>2^(e+1)\<close> the values are \<open>2^(e-52)\<close> apart, below
  \<open>2^(-1022)\<close> they are \<open>2^(-1074)\<close> apart (the subnormal values), and what rounds to
  \<open>2^1024\<close> or beyond is infinite.  \<open>binade x\<close> is the exponent \<open>e\<close> of \<open>x\<close>, found by a
  search from 1023 downwards and not below -1022.
\<close>

definition pow2 :: "int \<Rightarrow> real" where
  "pow2 e = (if 0 \<le> e then 2 ^ nat e else 1 / 2 ^ nat (- e))"

fun binadeSearch :: "nat \<Rightarrow> real \<Rightarrow> int" where
  "binadeSearch 0 x = - 1022"
| "binadeSearch (Suc n) x =
     (if pow2 (int (Suc n) - 1022) \<le> \<bar>x\<bar> then int (Suc n) - 1022 else binadeSearch n x)"

definition binade :: "real \<Rightarrow> int" where
  "binade x = binadeSearch 2045 x"

definition ulp :: "real \<Rightarrow> real" where
  "ulp x = pow2 (binade x - 52)"

definition numberValue :: "real \<Rightarrow> jsnum" where
  "numberValue x =
     (if x = 0 then Fin 0
      else let r = real_of_int (roundHalfEven (x / ulp x)) * ulp x
           in if 2 ^ 1024 \<le> \<bar>r\<bar> then (if 0 < x then PInf else NInf) else Fin r)"

text \<open>Negation, \<open>a + b\<close>, \<open>a - b\<close>, \<open>a < b\<close> and \<open>a / b\<close>; a zero divisor is the positive
  zero.\<close>

fun js_neg :: "jsnum \<Rightarrow> jsnum" where
  "js_neg (Fin a) = Fin (- a)"
| "js_neg PInf = NInf"
| "js_neg NInf = PInf"
| "js_neg NaN = NaN"

fun js_add :: "jsnum \<Rightarrow> jsnum \<Rightarrow> jsnum" where
  "js_add (Fin a) (Fin b) = numberValue (a + b)"
| "js_add NaN _ = NaN"
| "js_add _ NaN = NaN"
| "js_add PInf NInf = NaN"
| "js_add NInf PInf = NaN"
| "js_add PInf _ = PInf"
| "js_add _ PInf = PInf"
| "js_add NInf _ = NInf"
| "js_add _ NInf = NInf"

definition js_sub :: "jsnum \<Rightarrow> jsnum \<Rightarrow> jsnum" where
  "js_sub a b = js_add a (js_neg b)"

fun js_less :: "jsnum \<Rightarrow> jsnum \<Rightarrow> bool" where
  "js_less (Fin a) (Fin b) = (a < b)"
| "js_less NaN _ = False"
| "js_less _ NaN = False"
| "js_less _ NInf = False"
| "js_less NInf _ = True"
| "js_less PInf _ = False"
| "js_less _ PInf = True"

fun js_div :: "jsnum \<Rightarrow> jsnum \<Rightarrow> jsnum" where
  "js_div (Fin a) (Fin b) =
     (if b = 0 then (if a = 0 then NaN else if 0 < a then PInf else NInf)
      else numberValue (a / b))"
| "js_div NaN _ = NaN"
| "js_div _ NaN = NaN"
| "js_div (Fin a) _ = Fin 0"
| "js_div PInf (Fin b) = (if b < 0 then NInf else PInf)"
| "js_div NInf (Fin b) = (if b < 0 then PInf else NInf)"
| "js_div _ _ = NaN"

text \<open>\<open>x || 0\<close> on a Number: NaN and zero are falsy, every other value is kept.\<close>

definition js_orZero :: "jsnum \<Rightarrow> jsnum" where
  "js_orZero v = (case v of NaN \<Rightarrow> Fin 0 | _ \<Rightarrow> v)"

text \<open>
  \<open>parseFloat\<close> as a Number: after white space and a sign, the literal \<open>Infinity\<close> is an
  infinity; a decimal literal is the Number value for the real it denotes (\<open>parseFloat\<close>
  above); anything else is NaN.
\<close>

definition parseFloat64 :: "jsstring \<Rightarrow> jsnum" where
  "parseFloat64 s =
     (let (sg, u) = takeSign (dropWhile isWhiteSpace s)
      in if take 8 u = ascii ''Infinity'' then (if sg < 0 then NInf else PInf)
         else case parseFloat s of None \<Rightarrow> NaN | Some r \<Rightarrow> numberValue r)"

text \<open>The finite binary64 values are multiples of \<open>2^(-1074)\<close>.\<close>

definition onGrid :: "real \<Rightarrow> bool" where
  "onGrid r \<longleftrightarrow> (\<exists>n::int. r = real_of_int n * pow2 (- 1074))"

fun isDouble :: "jsnum \<Rightarrow> bool" where
  "isDouble (Fin r) = onGrid r"
| "isDouble _ = True"

section \<open>Dates\<close>

text \<open>
  A \<open>Date\<close> by its local calendar fields: the full year, the month from 0 to 11, the day of
  the month from 1, and the milliseconds since local midnight.  The local time zone is taken
  to be UTC.
\<close>

record jsdate =
  fullYear :: int
  month :: nat
  date :: nat
  msInDay :: nat

text \<open>Day arithmetic of the language standard: the day number of the first day of a year,
  the length of a month, the day number of a calendar day (months beyond 11 carry into the
  year), and the time value in milliseconds.\<close>

definition inLeapYear :: "int \<Rightarrow> bool" where
  "inLeapYear y \<longleftrightarrow> (y mod 4 = 0 \<and> y mod 100 \<noteq> 0) \<or> y mod 400 = 0"

definition daysInMonth :: "int \<Rightarrow> nat \<Rightarrow> nat" where
  "daysInMonth y m =
     (if m = 1 then (if inLeapYear y then 29 else 28)
      else if m = 3 \<or> m = 5 \<or> m = 8 \<or> m = 10 then 30 else 31)"

definition dayFromYear :: "int \<Rightarrow> int" where
  "dayFromYear y =
     365 * (y - 1970) + (y - 1969) div 4 - (y - 1901) div 100 + (y - 1601) div 400"

fun daysBeforeMonth :: "int \<Rightarrow> nat \<Rightarrow> int" where
  "daysBeforeMonth y 0 = 0"
| "daysBeforeMonth y (Suc m) = daysBeforeMonth y m + int (daysInMonth y m)"

definition makeDay :: "int \<Rightarrow> nat \<Rightarrow> nat \<Rightarrow> int" where
  "makeDay y m d =
     (let ym = y + int (m div 12); mn = m mod 12
      in dayFromYear ym + daysBeforeMonth ym mn + int d - 1)"

definition msPerDay :: int where
  "msPerDay = 86400000"

definition getTime :: "jsdate \<Rightarrow> int" where
  "getTime d = makeDay (fullYear d) (month d) (date d) * msPerDay + int (msInDay d)"

text \<open>
  \<open>currentDate.setMonth(currentDate.getMonth() + 1)\<close>: the month advances by one and the
  day of the month is kept; a day the new month does not have runs over into the month
  after it (the 31st of January becomes the 2nd or 3rd of March).  A day of the month is at
  most the 31st, so it never runs over further than that.
\<close>

definition setMonthNext :: "jsdate \<Rightarrow> jsdate" where
  "setMonthNext d =
     (let m1 = month d + 1;
          ym = fullYear d + int (m1 div 12);
          mn = m1 mod 12;
          len = daysInMonth ym mn
      in if date d \<le> len then d\<lparr> fullYear := ym, month := mn \<rparr>
         else d\<lparr> fullYear := ym + int ((mn + 1) div 12), month := (mn + 1) mod 12,
                 date := date d - len \<rparr>)"

definition cp_year :: nat where "cp_year = 24180"

definition cp_month :: nat where "cp_month = 26376"

definition cp_family1 :: nat where "cp_family1 = 23478"

definition cp_family2 :: nat where "cp_family2 = 24237"

text \<open>\<open>formatBillMonth\<close> (the same function in the three screens): year, U+5E74, a space,
  the two-digit month, U+6708; the empty string without a date.\<close>

definition formatBillMonth :: "jsdate option \<Rightarrow> jsstring" where
  "formatBillMonth d =
     (case d of
        None \<Rightarrow> []
      | Some dt \<Rightarrow> numberToString (fullYear dt) @ [cp_year, 32]
                   @ padStart2 (numberToString (int (month dt) + 1)) @ [cp_month])"

section \<open>Bills\<close>

record ExtraService =
  hasService :: bool
  cost :: real

record FamilyData =
  fam_id :: int
  fam_name :: jsstring
  lines :: int
  extraService :: ExtraService

text \<open>\<open>ResultData\<close>: what the calculation hands to the result screen; \<open>None\<close> is the
  \<open>null\<close> id of a bill not saved yet.\<close>

record ResultData =
  rd_id :: "int option"
  rd_billMonth :: jsstring
  rd_totalCost :: real
  rd_costPerLine :: real
  rd_families :: "FamilyData list"

record BillData =
  bill_id :: int
  billMonth :: jsstring
  totalCost :: real
  costPerLine :: real
  families :: "FamilyData list"

text \<open>The total of one family as the result screen and the summary compute it:
  \<open>family.lines * costPerLine + family.extraService.cost\<close>.\<close>

definition familyTotalCost :: "real \<Rightarrow> FamilyData \<Rightarrow> real" where
  "familyTotalCost cpl f = real_of_int (lines f) * cpl + cost (extraService f)"

section \<open>The single bill: \<open>handleCalculate\<close>\<close>

record ExtraServiceInput =
  in_hasService :: bool
  in_cost :: jsstring

record FamilyInBill =
  in_id :: int
  in_name :: jsstring
  in_lines :: jsstring
  in_extraService :: ExtraServiceInput

record InputState =
  in_totalCost :: jsstring
  familiesInBill :: "FamilyInBill list"
  billDate :: "jsdate option"
  editingBillId :: "int option"

definition extraCostOf :: "FamilyInBill \<Rightarrow> real" where
  "extraCostOf family =
     (if in_hasService (in_extraService family)
      then orZero (parseFloat (in_cost (in_extraService family))) else 0)"

definition linesOf :: "FamilyInBill \<Rightarrow> int" where
  "linesOf family = orZero (parseInt (in_lines family))"

text \<open>The body of the \<open>map\<close> callback: the family with its numbers parsed.\<close>

definition parseFamily :: "FamilyInBill \<Rightarrow> FamilyData" where
  "parseFamily family =
     \<lparr> fam_id = in_id family, fam_name = in_name family, lines = linesOf family,
       extraService = \<lparr> hasService = in_hasService (in_extraService family),
                        cost = extraCostOf family \<rparr> \<rparr>"

definition totalExtraServiceCost :: "FamilyInBill list \<Rightarrow> real" where
  "totalExtraServiceCost fs = foldl (\<lambda>acc family. acc + extraCostOf family) 0 fs"

definition totalLines :: "FamilyInBill list \<Rightarrow> int" where
  "totalLines fs = foldl (\<lambda>acc family. acc + linesOf family) 0 fs"

definition totalLineCost :: "InputState \<Rightarrow> real" where
  "totalLineCost st =
     orZero (parseFloat (in_totalCost st)) - totalExtraServiceCost (familiesInBill st)"

text \<open>\<open>totalLines > 0 ? totalLineCost / totalLines : 0\<close>.\<close>

definition costPerLineOf :: "real \<Rightarrow> int \<Rightarrow> jsfault + real" where
  "costPerLineOf lineCost n =
     (if n > 0 then js_divide lineCost (real_of_int n) else Inr 0)"

definition handleCalculate :: "InputState \<Rightarrow> jsfault + ResultData" where
  "handleCalculate st =
     (case costPerLineOf (totalLineCost st) (totalLines (familiesInBill st)) of
        Inl e \<Rightarrow> Inl e
      | Inr cpl \<Rightarrow>
          Inr \<lparr> rd_id = editingBillId st,
                rd_billMonth = (case billDate st of None \<Rightarrow> ascii ''N/A''
                                | Some d \<Rightarrow> formatBillMonth (Some d)),
                rd_totalCost = orZero (parseFloat (in_totalCost st)),
                rd_costPerLine = cpl,
                rd_families = map parseFamily (familiesInBill st) \<rparr>)"

section \<open>The batch: \<open>handleBatchCreate\<close>\<close>

record SavedFamily =
  sf_id :: int
  sf_name :: jsstring
  members :: "(int \<times> jsstring) list"

record BatchState =
  allFamilies :: "SavedFamily list"
  selectedFamilyIds :: "int set"
  extraServiceCosts :: "int \<Rightarrow> jsstring option"
  bc_totalCost :: jsstring
  startDate :: "jsdate option"
  endDate :: "jsdate option"

text \<open>The three alerts that end a batch before any bill is made, and the fault of a
  division by zero.\<close>

datatype batch_error = Incomplete | DateOrder | Insufficient | Fault jsfault

definition selectedFamilies :: "BatchState \<Rightarrow> SavedFamily list" where
  "selectedFamilies st = filter (\<lambda>f. sf_id f \<in> selectedFamilyIds st) (allFamilies st)"

text \<open>\<open>parseFloat(extraServiceCosts[f.id]) || 0\<close>; a family without an entry reads
  \<open>undefined\<close>, which does not parse.\<close>

definition batchExtraCost :: "BatchState \<Rightarrow> SavedFamily \<Rightarrow> real" where
  "batchExtraCost st f =
     orZero (case extraServiceCosts st (sf_id f) of None \<Rightarrow> None | Some s \<Rightarrow> parseFloat s)"

definition familyForBill :: "BatchState \<Rightarrow> SavedFamily \<Rightarrow> FamilyData" where
  "familyForBill st f =
     \<lparr> fam_id = sf_id f, fam_name = sf_name f, lines = int (length (members f)),
       extraService = \<lparr> hasService = (batchExtraCost st f > 0),
                        cost = batchExtraCost st f \<rparr> \<rparr>"

definition batchTotalExtra :: "BatchState \<Rightarrow> real" where
  "batchTotalExtra st = foldl (\<lambda>acc f. acc + batchExtraCost st f) 0 (selectedFamilies st)"

definition batchTotalLineCost :: "BatchState \<Rightarrow> real" where
  "batchTotalLineCost st = orZero (parseFloat (bc_totalCost st)) - batchTotalExtra st"

definition batchTotalLines :: "BatchState \<Rightarrow> int" where
  "batchTotalLines st =
     foldl (\<lambda>sum f. sum + lines f) 0 (map (familyForBill st) (selectedFamilies st))"

text \<open>
  The \<open>while\<close> loop.  \<open>now k\<close> is what the \<open>k\<close>-th call of \<open>Date.now()\<close> returns; the
  comparison of two dates is that of their time values.  Every round moves the current date
  forward by the length of a month, which is why the loop ends; the proof follows the facts
  of the day arithmetic below.
\<close>

function batchLoop :: "(nat \<Rightarrow> int) \<Rightarrow> nat \<Rightarrow> jsdate \<Rightarrow> jsdate \<Rightarrow> real \<Rightarrow> real \<Rightarrow> FamilyData list \<Rightarrow> BillData list" where
  "batchLoop now k currentDate endD tc cpl fams =
     (if getTime currentDate \<le> getTime endD
      then \<lparr> bill_id = now k + getTime currentDate,
             billMonth = formatBillMonth (Some currentDate),
             totalCost = tc, costPerLine = cpl, families = fams \<rparr>
           # batchLoop now (Suc k) (setMonthNext currentDate) endD tc cpl fams
      else [])"
  by pat_completeness auto

definition existingBills :: "BillData list option \<Rightarrow> BillData list" where
  "existingBills store = (case store of None \<Rightarrow> [] | Some bs \<Rightarrow> bs)"

text \<open>
  \<open>handleBatchCreate\<close> on the form state and the stored \<open>bills\<close> entry (\<open>None\<close> when the key
  is absent): the alert or the new bills, and the entry afterwards.  Reads and writes of
  the store are taken to succeed.
\<close>

definition handleBatchCreate ::
  "(nat \<Rightarrow> int) \<Rightarrow> BatchState \<Rightarrow> BillData list option
   \<Rightarrow> (batch_error + BillData list) \<times> BillData list option" where
  "handleBatchCreate now st store =
     (if selectedFamilyIds st = {} \<or> bc_totalCost st = []
         \<or> startDate st = None \<or> endDate st = None
      then (Inl Incomplete, store)
      else case (startDate st, endDate st) of
        (Some s, Some e) \<Rightarrow>
          if getTime e < getTime s then (Inl DateOrder, store)
          else if batchTotalLineCost st < 0 then (Inl Insufficient, store)
          else (case costPerLineOf (batchTotalLineCost st) (batchTotalLines st) of
                  Inl f \<Rightarrow> (Inl (Fault f), store)
                | Inr cpl \<Rightarrow>
                    let newBills = batchLoop now 0 s e (orZero (parseFloat (bc_totalCost st)))
                                     cpl (map (familyForBill st) (selectedFamilies st))
                    in (Inr newBills, Some (existingBills store @ newBills)))
      | _ \<Rightarrow> (Inl Incomplete, store))"

section \<open>The batch over binary64 values\<close>

text \<open>
  \<open>handleBatchCreate\<close> once more, with the amounts as the binary64 values the code
  computes with.  The form, the selection of the families, the loop over the months and the
  ids are as above; line counts are lengths of member lists and are taken as integers.
  The stored entry is modelled by the array of bills that is written; that \<open>JSON\<close> writes
  a number that is not finite as \<open>null\<close> is outside the model.
\<close>

record ExtraService64 =
  hasService64 :: bool
  cost64 :: jsnum

record FamilyData64 =
  fam_id64 :: int
  fam_name64 :: jsstring
  lines64 :: int
  extraService64 :: ExtraService64

record BillData64 =
  bill_id64 :: int
  billMonth64 :: jsstring
  totalCost64 :: jsnum
  costPerLine64 :: jsnum
  families64 :: "FamilyData64 list"

text \<open>\<open>parseFloat(extraServiceCosts[f.id]) || 0\<close>.\<close>

definition batchExtraCost64 :: "BatchState \<Rightarrow> SavedFamily \<Rightarrow> jsnum" where
  "batchExtraCost64 st f =
     js_orZero (case extraServiceCosts st (sf_id f) of None \<Rightarrow> NaN | Some s \<Rightarrow> parseFloat64 s)"

definition familyForBill64 :: "BatchState \<Rightarrow> SavedFamily \<Rightarrow> FamilyData64" where
  "familyForBill64 st f =
     \<lparr> fam_id64 = sf_id f, fam_name64 = sf_name f, lines64 = int (length (members f)),
       extraService64 = \<lparr> hasService64 = js_less (Fin 0) (batchExtraCost64 st f),
                          cost64 = batchExtraCost64 st f \<rparr> \<rparr>"

text \<open>\<open>parseFloat(totalCost) || 0\<close>, the sum of the extra costs in the order of the
  selected families, and \<open>parsedTotalCost - totalExtraServiceCost\<close>.\<close>

definition parsedTotalCost64 :: "BatchState \<Rightarrow> jsnum" where
  "parsedTotalCost64 st = js_orZero (parseFloat64 (bc_totalCost st))"

definition batchTotalExtra64 :: "BatchState \<Rightarrow> jsnum" where
  "batchTotalExtra64 st =
     foldl (\<lambda>acc f. js_add acc (batchExtraCost64 st f)) (Fin 0) (selectedFamilies st)"

definition batchTotalLineCost64 :: "BatchState \<Rightarrow> jsnum" where
  "batchTotalLineCost64 st = js_sub (parsedTotalCost64 st) (batchTotalExtra64 st)"

definition batchTotalLines64 :: "BatchState \<Rightarrow> int" where
  "batchTotalLines64 st =
     foldl (\<lambda>sum f. sum + lines64 f) 0 (map (familyForBill64 st) (selectedFamilies st))"

text \<open>\<open>totalLines > 0 ? totalLineCost / totalLines : 0\<close>.\<close>

definition batchCostPerLine64 :: "BatchState \<Rightarrow> jsnum" where
  "batchCostPerLine64 st =
     (if batchTotalLines64 st > 0
      then js_div (batchTotalLineCost64 st) (numberValue (real_of_int (batchTotalLines64 st)))
      else Fin 0)"

function batchLoop64 :: "(nat \<Rightarrow> int) \<Rightarrow> nat \<Rightarrow> jsdate \<Rightarrow> jsdate \<Rightarrow> jsnum \<Rightarrow> jsnum \<Rightarrow> FamilyData64 list \<Rightarrow> BillData64 list" where
  "batchLoop64 now k currentDate endD tc cpl fams =
     (if getTime currentDate \<le> getTime endD
      then \<lparr> bill_id64 = now k + getTime currentDate,
             billMonth64 = formatBillMonth (Some currentDate),
             totalCost64 = tc, costPerLine64 = cpl, families64 = fams \<rparr>
           # batchLoop64 now (Suc k) (setMonthNext currentDate) endD tc cpl fams
      else [])"
  by pat_completeness auto

definition existingBills64 :: "BillData64 list option \<Rightarrow> BillData64 list" where
  "existingBills64 store = (case store of None \<Rightarrow> [] | Some bs \<Rightarrow> bs)"

definition handleBatchCreate64 ::
  "(nat \<Rightarrow> int) \<Rightarrow> BatchState \<Rightarrow> BillData64 list option
   \<Rightarrow> (batch_error + BillData64 list) \<times> BillData64 list option" where
  "handleBatchCreate64 now st store =
     (if selectedFamilyIds st = {} \<or> bc_totalCost st = []
         \<or> startDate st = None \<or> endDate st = None
      then (Inl Incomplete, store)
      else case (startDate st, endDate st) of
        (Some s, Some e) \<Rightarrow>
          if getTime e < getTime s then (Inl DateOrder, store)
          else if js_less (batchTotalLineCost64 st) (Fin 0) then (Inl Insufficient, store)
          else let newBills = batchLoop64 now 0 s e (parsedTotalCost64 st)
                                (batchCostPerLine64 st)
                                (map (familyForBill64 st) (selectedFamilies st))
               in (Inr newBills, Some (existingBills64 store @ newBills))
      | _ \<Rightarrow> (Inl Incomplete, store))"

section \<open>The summary: \<open>handleCalculateSummary\<close>\<close>

record SummaryAcc =
  acc_extraServiceCost :: real
  acc_lines :: real
  acc_monthlyBill :: real
  acc_totalCost :: real
  acc_monthlyBreakdown :: "(jsstring \<times> real) list"

record SummaryResult =
  sr_name :: jsstring
  sr_extraServiceCost :: real
  sr_lines :: real
  sr_monthlyBill :: real
  sr_totalCost :: real
  sr_monthlyBreakdown :: "(jsstring \<times> real) list"

record HomeState =
  allBills :: "BillData list"
  hs_startDate :: "jsdate option"
  hs_endDate :: "jsdate option"

datatype summary_error = Prompt | NoData | TypeError

text \<open>
  The \<open>summary\<close> object is created by \<open>{}\<close>: its own properties in insertion order, and
  behind them the properties every object inherits from \<open>Object.prototype\<close> (those of the
  language standard, its annex of legacy features included).  Reading \<open>summary[key]\<close>
  finds an own property, else an inherited one (a function or an object, truthy either
  way), else \<open>undefined\<close>.
\<close>

type_synonym summary_obj = "(jsstring \<times> SummaryAcc) list"

definition objectPrototypeProps :: "jsstring list" where
  "objectPrototypeProps =
     map ascii [''constructor'', ''__proto__'', ''hasOwnProperty'', ''isPrototypeOf'',
                ''propertyIsEnumerable'', ''toLocaleString'', ''toString'', ''valueOf'',
                ''__defineGetter__'', ''__defineSetter__'', ''__lookupGetter__'',
                ''__lookupSetter__'']"

datatype 'a propval = Own 'a | Inherited | Undefined

definition getProp :: "(jsstring \<times> 'a) list \<Rightarrow> jsstring \<Rightarrow> 'a propval" where
  "getProp obj k =
     (case map_of obj k of
        Some v \<Rightarrow> Own v
      | None \<Rightarrow> if k \<in> set objectPrototypeProps then Inherited else Undefined)"

text \<open>\<open>family.name || `U+5BB6 U+5EAD ${family.id}`\<close>: the empty name is falsy.\<close>

definition familyKey :: "FamilyData \<Rightarrow> jsstring" where
  "familyKey family =
     (if fam_name family = []
      then [cp_family1, cp_family2, 32] @ numberToString (fam_id family)
      else fam_name family)"

text \<open>
  The body of the inner \<open>forEach\<close>.  A key that \<open>summary\<close> inherits is truthy, so no entry
  is made for it; the value found has no \<open>monthlyBreakdown\<close>, and the \<open>push\<close> on it throws.
  Assigning to an own property keeps its place; a new property goes to the end.
\<close>

definition addFamily :: "BillData \<Rightarrow> summary_obj \<Rightarrow> FamilyData \<Rightarrow> summary_error + summary_obj" where
  "addFamily bill summary family =
     (let familyName = familyKey family;
          familyTotal = familyTotalCost (costPerLine bill) family
      in case getProp summary familyName of
           Inherited \<Rightarrow> Inl TypeError
         | Own acc \<Rightarrow>
             Inr (AList.update familyName
                    (acc\<lparr> acc_totalCost := acc_totalCost acc + familyTotal,
                          acc_monthlyBreakdown :=
                            acc_monthlyBreakdown acc @ [(billMonth bill, familyTotal)] \<rparr>)
                    summary)
         | Undefined \<Rightarrow>
             Inr (AList.update familyName
                    \<lparr> acc_extraServiceCost = 0, acc_lines = 0, acc_monthlyBill = 0,
                      acc_totalCost = 0 + familyTotal,
                      acc_monthlyBreakdown = [(billMonth bill, familyTotal)] \<rparr>
                    summary))"

fun forEachFamily :: "BillData \<Rightarrow> FamilyData list \<Rightarrow> summary_obj \<Rightarrow> summary_error + summary_obj" where
  "forEachFamily bill [] summary = Inr summary"
| "forEachFamily bill (family # rest) summary =
     (case addFamily bill summary family of
        Inl e \<Rightarrow> Inl e
      | Inr summary' \<Rightarrow> forEachFamily bill rest summary')"

fun forEachBill :: "BillData list \<Rightarrow> summary_obj \<Rightarrow> summary_error + summary_obj" where
  "forEachBill [] summary = Inr summary"
| "forEachBill (bill # rest) summary =
     (case forEachFamily bill (families bill) summary of
        Inl e \<Rightarrow> Inl e
      | Inr summary' \<Rightarrow> forEachBill rest summary')"

text \<open>
  \<open>Object.keys\<close> lists the keys that are array indices first, in ascending numeric order,
  and the other keys in insertion order.  An array index is the canonical decimal form of
  an integer below \<open>2^32 - 1\<close>.
\<close>

definition isArrayIndex :: "jsstring \<Rightarrow> bool" where
  "isArrayIndex k \<longleftrightarrow>
     k \<noteq> [] \<and> list_all isDigit k \<and> (k = [48] \<or> hd k \<noteq> 48) \<and> length k \<le> 10
     \<and> digitsValue k < 4294967295"

definition ownEntries :: "(jsstring \<times> 'a) list \<Rightarrow> (jsstring \<times> 'a) list" where
  "ownEntries obj =
     sort_key (\<lambda>p. digitsValue (fst p)) (filter (\<lambda>p. isArrayIndex (fst p)) obj)
     @ filter (\<lambda>p. \<not> isArrayIndex (fst p)) obj"

definition toSummaryResult :: "jsstring \<times> SummaryAcc \<Rightarrow> SummaryResult" where
  "toSummaryResult p =
     \<lparr> sr_name = fst p,
       sr_extraServiceCost = acc_extraServiceCost (snd p),
       sr_lines = acc_lines (snd p),
       sr_monthlyBill = acc_monthlyBill (snd p),
       sr_totalCost = acc_totalCost (snd p),
       sr_monthlyBreakdown = acc_monthlyBreakdown (snd p) \<rparr>"

text \<open>The bills of the range: \<open>bill.billMonth >= startMonthStr && bill.billMonth <= endMonthStr\<close>.\<close>

definition filteredBills :: "HomeState \<Rightarrow> BillData list" where
  "filteredBills st =
     filter (\<lambda>bill. \<not> str_less (billMonth bill) (formatBillMonth (hs_startDate st))
                    \<and> str_le (billMonth bill) (formatBillMonth (hs_endDate st)))
       (allBills st)"

definition handleCalculateSummary :: "HomeState \<Rightarrow> summary_error + SummaryResult list" where
  "handleCalculateSummary st =
     (if hs_startDate st = None \<or> hs_endDate st = None \<or> allBills st = [] then Inl Prompt
      else if filteredBills st = [] then Inl NoData
      else case forEachBill (filteredBills st) [] of
             Inl e \<Rightarrow> Inl e
           | Inr summary \<Rightarrow> Inr (map toSummaryResult (ownEntries summary)))"


section \<open>Notions for the properties of the summary\<close>

text \<open>
  To state what an entry of the summary holds: the participations of a list of bills, in
  the order the two nested loops visit them; what one participation adds to its entry, the
  month of its bill and \<open>lines * costPerLine + extraService.cost\<close>; and the additions under
  one key.  \<open>accumulate\<close> is the update of one entry by one addition, \<open>forEachPair\<close> the two
  loops as one.
\<close>

definition participations :: "BillData list \<Rightarrow> (BillData \<times> FamilyData) list" where
  "participations bills = concat (map (\<lambda>bill. map (Pair bill) (families bill)) bills)"

definition contribution :: "BillData \<times> FamilyData \<Rightarrow> jsstring \<times> real" where
  "contribution p =
     (billMonth (fst p),
      real_of_int (lines (snd p)) * costPerLine (fst p) + cost (extraService (snd p)))"

definition contributionsTo :: "jsstring \<Rightarrow> (BillData \<times> FamilyData) list \<Rightarrow> (jsstring \<times> real) list" where
  "contributionsTo key ps = map contribution (filter (\<lambda>p. familyKey (snd p) = key) ps)"

definition accumulate :: "SummaryAcc option \<Rightarrow> jsstring \<times> real \<Rightarrow> SummaryAcc" where
  "accumulate a c =
     (case a of
        None \<Rightarrow> \<lparr> acc_extraServiceCost = 0, acc_lines = 0, acc_monthlyBill = 0,
                  acc_totalCost = 0 + snd c, acc_monthlyBreakdown = [c] \<rparr>
      | Some acc \<Rightarrow> acc\<lparr> acc_totalCost := acc_totalCost acc + snd c,
                         acc_monthlyBreakdown := acc_monthlyBreakdown acc @ [c] \<rparr>)"

fun forEachPair :: "(BillData \<times> FamilyData) list \<Rightarrow> summary_obj \<Rightarrow> summary_error + summary_obj" where
  "forEachPair [] summary = Inr summary"
| "forEachPair (p # ps) summary =
     (case addFamily (fst p) summary (snd p) of
        Inl e \<Rightarrow> Inl e
      | Inr summary' \<Rightarrow> forEachPair ps summary')"

definition accAll :: "SummaryAcc option \<Rightarrow> (jsstring \<times> real) list \<Rightarrow> SummaryAcc option" where
  "accAll a cs = foldl (\<lambda>a c. Some (accumulate a c)) a cs"


section \<open>Example inputs\<close>

text \<open>An input with one family of no lines and an enabled extra service of 30, on a bill
  of 100.\<close>

definition ex_noLines :: InputState where
  "ex_noLines =
     \<lparr> in_totalCost = ascii ''100'',
       familiesInBill =
         [\<lparr> in_id = 1, in_name = ascii ''A'', in_lines = ascii ''0'',
            in_extraService = \<lparr> in_hasService = True, in_cost = ascii ''30'' \<rparr> \<rparr>],
       billDate = None, editingBillId = None \<rparr>"

text \<open>An input with two families, three lines in all: the example of the specification,
  with a disabled extra service whose field still holds 12.\<close>

definition ex_twoFamilies :: InputState where
  "ex_twoFamilies =
     \<lparr> in_totalCost = ascii ''300'',
       familiesInBill =
         [\<lparr> in_id = 1, in_name = ascii ''A'', in_lines = ascii ''2'',
            in_extraService = \<lparr> in_hasService = False, in_cost = ascii ''12'' \<rparr> \<rparr>,
          \<lparr> in_id = 2, in_name = ascii ''B'', in_lines = ascii ''1'',
            in_extraService = \<lparr> in_hasService = True, in_cost = ascii ''30'' \<rparr> \<rparr>],
       billDate = None, editingBillId = None \<rparr>"

text \<open>Dates of 2024 at local midnight, and a clock that starts at a given time and
  advances by a millisecond per reading.\<close>

definition d2024_01_01 :: jsdate where
  "d2024_01_01 = \<lparr> fullYear = 2024, month = 0, date = 1, msInDay = 0 \<rparr>"

definition d2024_01_31 :: jsdate where
  "d2024_01_31 = \<lparr> fullYear = 2024, month = 0, date = 31, msInDay = 0 \<rparr>"

definition d2024_02_01 :: jsdate where
  "d2024_02_01 = \<lparr> fullYear = 2024, month = 1, date = 1, msInDay = 0 \<rparr>"

definition d2024_03_01 :: jsdate where
  "d2024_03_01 = \<lparr> fullYear = 2024, month = 2, date = 1, msInDay = 0 \<rparr>"

definition d2024_03_02 :: jsdate where
  "d2024_03_02 = \<lparr> fullYear = 2024, month = 2, date = 2, msInDay = 0 \<rparr>"

definition d2024_03_31 :: jsdate where
  "d2024_03_31 = \<lparr> fullYear = 2024, month = 2, date = 31, msInDay = 0 \<rparr>"

definition d2024_04_01 :: jsdate where
  "d2024_04_01 = \<lparr> fullYear = 2024, month = 3, date = 1, msInDay = 0 \<rparr>"

definition d2024_04_02 :: jsdate where
  "d2024_04_02 = \<lparr> fullYear = 2024, month = 3, date = 2, msInDay = 0 \<rparr>"

definition d2024_01_10 :: jsdate where
  "d2024_01_10 = \<lparr> fullYear = 2024, month = 0, date = 10, msInDay = 0 \<rparr>"

definition d2024_01_15 :: jsdate where
  "d2024_01_15 = \<lparr> fullYear = 2024, month = 0, date = 15, msInDay = 0 \<rparr>"

definition d2024_01_20 :: jsdate where
  "d2024_01_20 = \<lparr> fullYear = 2024, month = 0, date = 20, msInDay = 0 \<rparr>"

definition d2024_02_15 :: jsdate where
  "d2024_02_15 = \<lparr> fullYear = 2024, month = 1, date = 15, msInDay = 0 \<rparr>"

definition d2024_03_10 :: jsdate where
  "d2024_03_10 = \<lparr> fullYear = 2024, month = 2, date = 10, msInDay = 0 \<rparr>"

definition d2024_03_15 :: jsdate where
  "d2024_03_15 = \<lparr> fullYear = 2024, month = 2, date = 15, msInDay = 0 \<rparr>"

definition clockFrom :: "int \<Rightarrow> nat \<Rightarrow> int" where
  "clockFrom t k = t + int k"

text \<open>The form of the batch with one family, of the given members, selected; the
  participation and the bill it leads to; a month token; and a family of two.\<close>

definition ex_batch ::
  "(int \<times> jsstring) list \<Rightarrow> jsstring \<Rightarrow> jsstring \<Rightarrow> jsdate option \<Rightarrow> jsdate option \<Rightarrow> BatchState" where
  "ex_batch ms tot extra s e =
     \<lparr> allFamilies = [\<lparr> sf_id = 1, sf_name = ascii ''A'', members = ms \<rparr>],
       selectedFamilyIds = {1}, extraServiceCosts = [1 \<mapsto> extra], bc_totalCost = tot,
       startDate = s, endDate = e \<rparr>"

definition ex_familyInBill :: "int \<Rightarrow> real \<Rightarrow> FamilyData" where
  "ex_familyInBill n c =
     \<lparr> fam_id = 1, fam_name = ascii ''A'', lines = n,
       extraService = \<lparr> hasService = (c > 0), cost = c \<rparr> \<rparr>"

definition ex_bill :: "int \<Rightarrow> jsstring \<Rightarrow> real \<Rightarrow> real \<Rightarrow> int \<Rightarrow> real \<Rightarrow> BillData" where
  "ex_bill i m tc cpl n c =
     \<lparr> bill_id = i, billMonth = m, totalCost = tc, costPerLine = cpl,
       families = [ex_familyInBill n c] \<rparr>"

text \<open>The participation and the bill that the form of the batch leads to, over binary64
  values.\<close>

definition ex_familyInBill64 :: "int \<Rightarrow> jsnum \<Rightarrow> FamilyData64" where
  "ex_familyInBill64 n c =
     \<lparr> fam_id64 = 1, fam_name64 = ascii ''A'', lines64 = n,
       extraService64 = \<lparr> hasService64 = js_less (Fin 0) c, cost64 = c \<rparr> \<rparr>"

definition ex_bill64 :: "int \<Rightarrow> jsstring \<Rightarrow> jsnum \<Rightarrow> jsnum \<Rightarrow> int \<Rightarrow> jsnum \<Rightarrow> BillData64" where
  "ex_bill64 i m tc cpl n c =
     \<lparr> bill_id64 = i, billMonth64 = m, totalCost64 = tc, costPerLine64 = cpl,
       families64 = [ex_familyInBill64 n c] \<rparr>"

definition token :: "string \<Rightarrow> string \<Rightarrow> jsstring" where
  "token y m = ascii y @ [cp_year, 32] @ ascii m @ [cp_month]"

definition two_members :: "(int \<times> jsstring) list" where
  "two_members = [(11, ascii ''a''), (12, ascii ''b'')]"

text \<open>The form of the batch with two families selected, for January 2024.\<close>

definition ex_batchTwo :: "jsstring \<Rightarrow> jsstring \<Rightarrow> jsstring \<Rightarrow> BatchState" where
  "ex_batchTwo tot extra1 extra2 =
     \<lparr> allFamilies = [\<lparr> sf_id = 1, sf_name = ascii ''A'', members = two_members \<rparr>,
                      \<lparr> sf_id = 2, sf_name = ascii ''B'', members = two_members \<rparr>],
       selectedFamilyIds = {1, 2}, extraServiceCosts = [1 \<mapsto> extra1, 2 \<mapsto> extra2],
       bc_totalCost = tot, startDate = Some d2024_01_01, endDate = Some d2024_01_01 \<rparr>"

text \<open>A participation; a history of two bills with the same families, for January 2024
  and December 2023, at 10 per line, queried for January to March 2024; an entry of a
  summary; and the key of a family without a name.\<close>

definition ex_part :: "int \<Rightarrow> jsstring \<Rightarrow> int \<Rightarrow> bool \<Rightarrow> real \<Rightarrow> FamilyData" where
  "ex_part i n l h c =
     \<lparr> fam_id = i, fam_name = n, lines = l, extraService = \<lparr> hasService = h, cost = c \<rparr> \<rparr>"

definition ex_janBill :: "FamilyData list \<Rightarrow> BillData" where
  "ex_janBill fams =
     \<lparr> bill_id = 2, billMonth = token ''2024'' ''01'', totalCost = 100, costPerLine = 10,
       families = fams \<rparr>"

definition ex_home :: "FamilyData list \<Rightarrow> HomeState" where
  "ex_home fams =
     \<lparr> allBills = [ex_janBill fams,
                   \<lparr> bill_id = 1, billMonth = token ''2023'' ''12'', totalCost = 100,
                     costPerLine = 10, families = fams \<rparr>],
       hs_startDate = Some d2024_01_01, hs_endDate = Some d2024_03_31 \<rparr>"

definition ex_entry :: "jsstring \<Rightarrow> real \<Rightarrow> (jsstring \<times> real) list \<Rightarrow> SummaryResult" where
  "ex_entry n t ms =
     \<lparr> sr_name = n, sr_extraServiceCost = 0, sr_lines = 0, sr_monthlyBill = 0,
       sr_totalCost = t, sr_monthlyBreakdown = ms \<rparr>"

definition unnamedKey :: "string \<Rightarrow> jsstring" where
  "unnamedKey i = [cp_family1, cp_family2, 32] @ ascii i"


section \<open>Day arithmetic and the termination of the loop\<close>

text \<open>Facts of the day arithmetic: one call of \<open>setMonth\<close> moves the time value forward by
  the length of the current month.\<close>

lemma div_step: 
  fixes a k :: int assumes k: "0 < k"
  shows "(a + 1) div k = a div k + (if (a + 1) mod k = 0 then 1 else 0)"
proof -
  have dm: "a = k * (a div k) + a mod k" by simp
  show ?thesis
  proof (cases "a mod k = k - 1")
    case True
    have "a + 1 = k * (a div k) + k" using dm True by linarith
    then have e: "a + 1 = k * (a div k + 1) + 0" by (simp add: distrib_left)
    have "(a + 1) div k = a div k + 1" by (rule int_div_pos_eq [OF e]) (use k in simp_all)
    moreover have "(a + 1) mod k = 0" by (rule int_mod_pos_eq [OF e]) (use k in simp_all)
    ultimately show ?thesis by simp
  next
    case False
    have r: "0 \<le> a mod k + 1" "a mod k + 1 < k"
      using False k pos_mod_sign [of k a] pos_mod_bound [of k a] by linarith+
    have e: "a + 1 = k * (a div k) + (a mod k + 1)"
      using dm by linarith
    have "(a + 1) div k = a div k" using e r by (rule int_div_pos_eq)
    moreover have "(a + 1) mod k = a mod k + 1" using e r by (rule int_mod_pos_eq)
    moreover have "a mod k + 1 \<noteq> 0" using k pos_mod_sign [of k a] by linarith
    ultimately show ?thesis by simp
  qed
qed

lemma dayFromYear_next: "dayFromYear (y + 1) = dayFromYear y + (if inLeapYear y then 366 else 365)"
proof -
  have m4: "(y - 1969 + 1) mod 4 = y mod 4"
    using mod_mult_self2 [of y 4 "- 492"] by simp
  have m100: "(y - 1901 + 1) mod 100 = y mod 100"
    using mod_mult_self2 [of y 100 "- 19"] by simp
  have m400: "(y - 1601 + 1) mod 400 = y mod 400"
    using mod_mult_self2 [of y 400 "- 4"] by simp
  have a: "(y + 1 - 1969) div 4 = (y - 1969) div 4 + (if y mod 4 = 0 then 1 else 0)"
    using div_step [of 4 "y - 1969"] m4 by (simp add: algebra_simps)
  have b: "(y + 1 - 1901) div 100 = (y - 1901) div 100 + (if y mod 100 = 0 then 1 else 0)"
    using div_step [of 100 "y - 1901"] m100 by (simp add: algebra_simps)
  have c: "(y + 1 - 1601) div 400 = (y - 1601) div 400 + (if y mod 400 = 0 then 1 else 0)"
    using div_step [of 400 "y - 1601"] m400 by (simp add: algebra_simps)
  have d: "y mod 400 = 0 \<Longrightarrow> y mod 100 = 0" by presburger
  have e: "y mod 100 = 0 \<Longrightarrow> y mod 4 = 0" by presburger
  show ?thesis
    unfolding dayFromYear_def inLeapYear_def a b c using d e by auto
qed

lemma daysBeforeMonth_12: "daysBeforeMonth y 12 = (if inLeapYear y then 366 else 365)"
  by (simp add: eval_nat_numeral daysInMonth_def)

lemma month_start_next:
  assumes "r < 12"
  shows "dayFromYear (Y + int ((r + 1) div 12)) + daysBeforeMonth (Y + int ((r + 1) div 12)) ((r + 1) mod 12)
         = dayFromYear Y + daysBeforeMonth Y r + int (daysInMonth Y r)"
proof (cases "r = 11")
  case True
  have "daysBeforeMonth Y (Suc 11) = daysBeforeMonth Y 11 + int (daysInMonth Y 11)"
    by (rule daysBeforeMonth.simps)
  then have "daysBeforeMonth Y 11 + int (daysInMonth Y 11) = (if inLeapYear Y then 366 else 365)"
    using daysBeforeMonth_12 [of Y] by simp
  then show ?thesis using True dayFromYear_next [of Y] by simp
next
  case False
  then have "r + 1 < 12" using assms by simp
  then show ?thesis by simp
qed

lemma daysInMonth_pos: "28 \<le> daysInMonth y m"
  by (simp add: daysInMonth_def)

lemma getTime_setMonthNext:
  "getTime (setMonthNext d)
   = getTime d + int (daysInMonth (fullYear d + int (month d div 12)) (month d mod 12)) * msPerDay"
proof -
  define Y where "Y = fullYear d + int (month d div 12)"
  define r where "r = month d mod 12"
  define Y1 where "Y1 = Y + int ((r + 1) div 12)"
  define r1 where "r1 = (r + 1) mod 12"
  have r: "r < 12" and r1: "r1 < 12" by (simp_all add: r_def r1_def)
  have A: "(month d + 1) div 12 = month d div 12 + (r + 1) div 12"
    unfolding r_def by presburger
  have B: "(month d + 1) mod 12 = r1"
    unfolding r1_def r_def by presburger
  have ym: "fullYear d + int ((month d + 1) div 12) = Y1"
    unfolding Y1_def Y_def A by simp
  have S1: "dayFromYear Y1 + daysBeforeMonth Y1 r1
            = dayFromYear Y + daysBeforeMonth Y r + int (daysInMonth Y r)"
    unfolding Y1_def r1_def by (rule month_start_next [OF r])
  have g0: "getTime d = (dayFromYear Y + daysBeforeMonth Y r + int (date d) - 1) * msPerDay + int (msInDay d)"
    by (simp add: getTime_def makeDay_def Let_def Y_def r_def)
  show ?thesis
  proof (cases "date d \<le> daysInMonth Y1 r1")
    case True
    then have "setMonthNext d = d\<lparr> fullYear := Y1, month := r1 \<rparr>"
      by (simp add: setMonthNext_def Let_def ym B del: One_nat_def)
    then have "getTime (setMonthNext d)
               = (dayFromYear Y1 + daysBeforeMonth Y1 r1 + int (date d) - 1) * msPerDay + int (msInDay d)"
      using r1 by (simp add: getTime_def makeDay_def Let_def)
    then show ?thesis
      unfolding g0 S1 Y_def [symmetric] r_def [symmetric] by (simp add: algebra_simps)
  next
    case False
    define Y2 where "Y2 = Y1 + int ((r1 + 1) div 12)"
    define r2 where "r2 = (r1 + 1) mod 12"
    have r2: "r2 < 12" by (simp add: r2_def)
    have S2: "dayFromYear Y2 + daysBeforeMonth Y2 r2
              = dayFromYear Y1 + daysBeforeMonth Y1 r1 + int (daysInMonth Y1 r1)"
      unfolding Y2_def r2_def by (rule month_start_next [OF r1])
    from False have "setMonthNext d
         = d\<lparr> fullYear := Y2, month := r2, date := date d - daysInMonth Y1 r1 \<rparr>"
      by (simp add: setMonthNext_def Let_def ym B Y2_def r2_def del: One_nat_def)
    then have "getTime (setMonthNext d)
               = (dayFromYear Y2 + daysBeforeMonth Y2 r2 + int (date d - daysInMonth Y1 r1) - 1) * msPerDay
                 + int (msInDay d)"
      using r2 by (simp add: getTime_def makeDay_def Let_def)
    moreover have "int (date d - daysInMonth Y1 r1) = int (date d) - int (daysInMonth Y1 r1)"
      using False by simp
    ultimately show ?thesis
      unfolding g0 S2 S1 Y_def [symmetric] r_def [symmetric] by (simp add: algebra_simps)
  qed
qed

lemma getTime_setMonthNext_less: "getTime d < getTime (setMonthNext d)"
proof -
  have "0 < int (daysInMonth (fullYear d + int (month d div 12)) (month d mod 12)) * msPerDay"
    using daysInMonth_pos [of "fullYear d + int (month d div 12)" "month d mod 12"]
    by (simp add: msPerDay_def)
  then show ?thesis unfolding getTime_setMonthNext by linarith
qed

termination batchLoop
proof (relation "measure (\<lambda>(now, k, c, e, tc, cpl, fams). nat (getTime e - getTime c + 1))")
  show "wf (measure (\<lambda>(now, k, c, e, tc, cpl, fams). nat (getTime e - getTime c + 1)))" by simp
next
  fix now :: "nat \<Rightarrow> int" and k :: nat and currentDate endD :: jsdate and tc cpl :: real and fams :: "FamilyData list"
  assume "getTime currentDate \<le> getTime endD"
  then show "((now, Suc k, setMonthNext currentDate, endD, tc, cpl, fams), (now, k, currentDate, endD, tc, cpl, fams))
        \<in> measure (\<lambda>(now, k, c, e, tc, cpl, fams). nat (getTime e - getTime c + 1))"
    using getTime_setMonthNext_less [of currentDate] by simp
qed

termination batchLoop64
proof (relation "measure (\<lambda>(now, k, c, e, tc, cpl, fams). nat (getTime e - getTime c + 1))")
  show "wf (measure (\<lambda>(now, k, c, e, tc, cpl, fams). nat (getTime e - getTime c + 1)))" by simp
next
  fix now :: "nat \<Rightarrow> int" and k :: nat and currentDate endD :: jsdate and tc cpl :: jsnum and fams :: "FamilyData64 list"
  assume "getTime currentDate \<le> getTime endD"
  then show "((now, Suc k, setMonthNext currentDate, endD, tc, cpl, fams), (now, k, currentDate, endD, tc, cpl, fams))
        \<in> measure (\<lambda>(now, k, c, e, tc, cpl, fams). nat (getTime e - getTime c + 1))"
    using getTime_setMonthNext_less [of currentDate] by simp
qed

section \<open>Properties of the single bill\<close>

lemmas js_eval =
  parseFloat_def parseInt_def ascii_def isDigit_def isWhiteSpace_def digitsValue_def pow10_def
  orZero_def numberToString_def natToString.simps padStart2_def

lemma foldl_add_sum_list:
  fixes a :: "'a::comm_monoid_add"
  shows "foldl (\<lambda>acc x. acc + f x) a xs = a + sum_list (map f xs)"
  by (induction xs arbitrary: a) (simp_all add: add.assoc)

lemma costPerLineOf_eq:
  "costPerLineOf lc n = Inr (if n > 0 then lc / real_of_int n else 0)"
  by (simp add: costPerLineOf_def js_divide_def)

lemma handleCalculate_eq:
  "handleCalculate st =
     Inr \<lparr> rd_id = editingBillId st,
           rd_billMonth = (case billDate st of None \<Rightarrow> ascii ''N/A''
                           | Some d \<Rightarrow> formatBillMonth (Some d)),
           rd_totalCost = orZero (parseFloat (in_totalCost st)),
           rd_costPerLine = (if totalLines (familiesInBill st) > 0
                             then totalLineCost st / real_of_int (totalLines (familiesInBill st))
                             else 0),
           rd_families = map parseFamily (familiesInBill st) \<rparr>"
  by (simp add: handleCalculate_def costPerLineOf_eq)

lemma sum_familyTotalCost:
  "sum_list (map (familyTotalCost cpl) fs)
   = real_of_int (sum_list (map lines fs)) * cpl + sum_list (map (\<lambda>f. cost (extraService f)) fs)"
  by (induction fs) (simp_all add: familyTotalCost_def algebra_simps)

lemma lines_parseFamily: "map lines (map parseFamily fs) = map linesOf fs"
  by (simp add: parseFamily_def)

lemma totalLines_sum: "totalLines fs = sum_list (map linesOf fs)"
  by (simp add: totalLines_def foldl_add_sum_list)

lemma handleCalculate_ex_noLines:
  "handleCalculate ex_noLines =
     Inr \<lparr> rd_id = None, rd_billMonth = ascii ''N/A'', rd_totalCost = 100, rd_costPerLine = 0,
           rd_families = [\<lparr> fam_id = 1, fam_name = ascii ''A'', lines = 0,
                            extraService = \<lparr> hasService = True, cost = 30 \<rparr> \<rparr>] \<rparr>"
  by (simp add: handleCalculate_eq ex_noLines_def totalLines_def totalLineCost_def
      totalExtraServiceCost_def parseFamily_def linesOf_def extraCostOf_def js_eval)

lemma handleCalculate_ex_twoFamilies:
  "handleCalculate ex_twoFamilies =
     Inr \<lparr> rd_id = None, rd_billMonth = ascii ''N/A'', rd_totalCost = 300, rd_costPerLine = 90,
           rd_families = [\<lparr> fam_id = 1, fam_name = ascii ''A'', lines = 2,
                            extraService = \<lparr> hasService = False, cost = 0 \<rparr> \<rparr>,
                          \<lparr> fam_id = 2, fam_name = ascii ''B'', lines = 1,
                            extraService = \<lparr> hasService = True, cost = 30 \<rparr> \<rparr>] \<rparr>"
  by (simp add: handleCalculate_eq ex_twoFamilies_def totalLines_def totalLineCost_def
      totalExtraServiceCost_def parseFamily_def linesOf_def extraCostOf_def js_eval)

text \<open>
  C1 (as stated, refuted).  The sum of the family totals, each computed as
  \<open>lines * costPerLine + extraService.cost\<close>, is claimed to equal the line cost plus the sum
  of the extra costs for every input.  With no lines at all the rate is 0, and the line cost
  is allotted to nobody: the family totals add up to 30, the line cost and the extras to
  100.
\<close>

theorem single_bill_total_counterexample:
  "handleCalculate ex_noLines =
     Inr \<lparr> rd_id = None, rd_billMonth = ascii ''N/A'', rd_totalCost = 100, rd_costPerLine = 0,
           rd_families = [\<lparr> fam_id = 1, fam_name = ascii ''A'', lines = 0,
                            extraService = \<lparr> hasService = True, cost = 30 \<rparr> \<rparr>] \<rparr>
   \<and> sum_list (map (familyTotalCost 0)
                 [\<lparr> fam_id = 1, fam_name = ascii ''A'', lines = 0,
                    extraService = \<lparr> hasService = True, cost = 30 \<rparr> \<rparr>]) = 30
   \<and> totalLineCost ex_noLines + 30 = 100"
  by (simp add: handleCalculate_ex_noLines familyTotalCost_def)
     (simp add: ex_noLines_def totalLineCost_def totalExtraServiceCost_def extraCostOf_def js_eval)

text \<open>
  C1 (amended).  When the total line count is positive, the family totals of the calculated
  bill, each \<open>lines * costPerLine + extraService.cost\<close>, add up to the line cost (the parsed
  total minus the enabled extra costs) plus the sum of the extra costs stored on the bill.
  When it is not, they add up to the extra costs alone.
\<close>

theorem single_bill_total_preserving:
  "\<exists>r. handleCalculate st = Inr r
       \<and> (0 < totalLines (familiesInBill st) \<longrightarrow>
            sum_list (map (familyTotalCost (rd_costPerLine r)) (rd_families r))
            = totalLineCost st + sum_list (map (\<lambda>f. cost (extraService f)) (rd_families r)))
       \<and> (totalLines (familiesInBill st) \<le> 0 \<longrightarrow>
            sum_list (map (familyTotalCost (rd_costPerLine r)) (rd_families r))
            = sum_list (map (\<lambda>f. cost (extraService f)) (rd_families r)))"
proof -
  let ?n = "totalLines (familiesInBill st)"
  let ?cpl = "if 0 < ?n then totalLineCost st / real_of_int ?n else 0"
  let ?fs = "map parseFamily (familiesInBill st)"
  obtain r where r: "handleCalculate st = Inr r" "rd_costPerLine r = ?cpl" "rd_families r = ?fs"
    by (simp add: handleCalculate_eq)
  have "sum_list (map lines ?fs) = ?n"
    by (simp only: lines_parseFamily totalLines_sum)
  then have sum: "sum_list (map (familyTotalCost ?cpl) ?fs)
             = real_of_int ?n * ?cpl + sum_list (map (\<lambda>f. cost (extraService f)) ?fs)"
    by (simp only: sum_familyTotalCost)
  have pos: "real_of_int ?n * ?cpl = totalLineCost st" if "0 < ?n"
    using that by simp
  have nonpos: "real_of_int ?n * ?cpl = 0" if "?n \<le> 0"
    using that by simp
  show ?thesis
  proof (intro exI conjI impI)
    show "handleCalculate st = Inr r" by (rule r(1))
  next
    assume "0 < ?n"
    then show "sum_list (map (familyTotalCost (rd_costPerLine r)) (rd_families r))
            = totalLineCost st + sum_list (map (\<lambda>f. cost (extraService f)) (rd_families r))"
      unfolding r(2,3) sum using pos by simp
  next
    assume "?n \<le> 0"
    then show "sum_list (map (familyTotalCost (rd_costPerLine r)) (rd_families r))
            = sum_list (map (\<lambda>f. cost (extraService f)) (rd_families r))"
      unfolding r(2,3) sum using nonpos by simp
  qed
qed

theorem single_bill_total_preserving_witness:
  "0 < totalLines (familiesInBill ex_twoFamilies)
   \<and> handleCalculate ex_twoFamilies =
     Inr \<lparr> rd_id = None, rd_billMonth = ascii ''N/A'', rd_totalCost = 300, rd_costPerLine = 90,
           rd_families = [\<lparr> fam_id = 1, fam_name = ascii ''A'', lines = 2,
                            extraService = \<lparr> hasService = False, cost = 0 \<rparr> \<rparr>,
                          \<lparr> fam_id = 2, fam_name = ascii ''B'', lines = 1,
                            extraService = \<lparr> hasService = True, cost = 30 \<rparr> \<rparr>] \<rparr>
   \<and> sum_list (map (familyTotalCost 90)
                 [\<lparr> fam_id = 1, fam_name = ascii ''A'', lines = 2,
                    extraService = \<lparr> hasService = False, cost = 0 \<rparr> \<rparr>,
                  \<lparr> fam_id = 2, fam_name = ascii ''B'', lines = 1,
                    extraService = \<lparr> hasService = True, cost = 30 \<rparr> \<rparr>])
     = totalLineCost ex_twoFamilies + 30
   \<and> totalLineCost ex_twoFamilies = 270"
proof -
  have pos: "0 < totalLines (familiesInBill ex_twoFamilies)"
    by (simp add: ex_twoFamilies_def totalLines_def linesOf_def js_eval)
  have cost: "totalLineCost ex_twoFamilies = 270"
    by (simp add: ex_twoFamilies_def totalLineCost_def totalExtraServiceCost_def extraCostOf_def
        js_eval)
  have sum: "sum_list (map (familyTotalCost 90)
                 [\<lparr> fam_id = 1, fam_name = ascii ''A'', lines = 2,
                    extraService = \<lparr> hasService = False, cost = 0 \<rparr> \<rparr>,
                  \<lparr> fam_id = 2, fam_name = ascii ''B'', lines = 1,
                    extraService = \<lparr> hasService = True, cost = 30 \<rparr> \<rparr>])
     = totalLineCost ex_twoFamilies + 30"
    using pos single_bill_total_preserving [of ex_twoFamilies]
    by (simp add: handleCalculate_ex_twoFamilies)
  show ?thesis
    by (intro conjI pos handleCalculate_ex_twoFamilies sum cost)
qed

text \<open>
  C9.  Every bill the calculation produces stores the extra cost 0 for a family whose
  extra service is disabled, and for one whose cost field does not parse (blank included);
  so on these bills adding \<open>extraService.cost\<close> unconditionally gives the same family total
  as adding it only when the service is enabled.
\<close>

theorem single_bill_disabled_extra_zero:
  "\<exists>r. handleCalculate st = Inr r
       \<and> rd_families r = map parseFamily (familiesInBill st)
       \<and> (\<forall>f \<in> set (rd_families r). \<not> hasService (extraService f) \<longrightarrow> cost (extraService f) = 0)
       \<and> (\<forall>family \<in> set (familiesInBill st).
             parseFloat (in_cost (in_extraService family)) = None
             \<longrightarrow> cost (extraService (parseFamily family)) = 0)
       \<and> (\<forall>f \<in> set (rd_families r).
             familyTotalCost (rd_costPerLine r) f
             = real_of_int (lines f) * rd_costPerLine r
               + (if hasService (extraService f) then cost (extraService f) else 0))"
  by (auto simp add: handleCalculate_eq parseFamily_def extraCostOf_def orZero_def familyTotalCost_def)

theorem single_bill_disabled_extra_zero_witness:
  "handleCalculate ex_twoFamilies =
     Inr \<lparr> rd_id = None, rd_billMonth = ascii ''N/A'', rd_totalCost = 300, rd_costPerLine = 90,
           rd_families = [\<lparr> fam_id = 1, fam_name = ascii ''A'', lines = 2,
                            extraService = \<lparr> hasService = False, cost = 0 \<rparr> \<rparr>,
                          \<lparr> fam_id = 2, fam_name = ascii ''B'', lines = 1,
                            extraService = \<lparr> hasService = True, cost = 30 \<rparr> \<rparr>] \<rparr>
   \<and> in_cost (in_extraService (hd (familiesInBill ex_twoFamilies))) = ascii ''12''
   \<and> \<not> hasService (extraService (parseFamily (hd (familiesInBill ex_twoFamilies))))
   \<and> cost (extraService (parseFamily (hd (familiesInBill ex_twoFamilies)))) = 0"
proof -
  let ?fA = "parseFamily (hd (familiesInBill ex_twoFamilies))"
  from single_bill_disabled_extra_zero [of ex_twoFamilies] obtain r where
    all: "handleCalculate ex_twoFamilies = Inr r
       \<and> rd_families r = map parseFamily (familiesInBill ex_twoFamilies)
       \<and> (\<forall>f \<in> set (rd_families r). \<not> hasService (extraService f) \<longrightarrow> cost (extraService f) = 0)
       \<and> (\<forall>family \<in> set (familiesInBill ex_twoFamilies).
             parseFloat (in_cost (in_extraService family)) = None
             \<longrightarrow> cost (extraService (parseFamily family)) = 0)
       \<and> (\<forall>f \<in> set (rd_families r).
             familyTotalCost (rd_costPerLine r) f
             = real_of_int (lines f) * rd_costPerLine r
               + (if hasService (extraService f) then cost (extraService f) else 0))" ..
  note r = all [THEN conjunct2, THEN conjunct1]
  note z = all [THEN conjunct2, THEN conjunct2, THEN conjunct1]
  have off: "\<not> hasService (extraService ?fA)"
    by (simp add: ex_twoFamilies_def parseFamily_def)
  have "?fA \<in> set (rd_families r)"
    unfolding r by (simp add: ex_twoFamilies_def)
  with z off have zero: "cost (extraService ?fA) = 0"
    by blast
  have field: "in_cost (in_extraService (hd (familiesInBill ex_twoFamilies))) = ascii ''12''"
    by (simp add: ex_twoFamilies_def)
  show ?thesis
    by (intro conjI handleCalculate_ex_twoFamilies field off zero)
qed

section \<open>Properties of the batch\<close>

declare batchLoop.simps [simp del]

lemma batchLoop_fields:
  "b \<in> set (batchLoop now k c e tc cpl fams)
   \<Longrightarrow> totalCost b = tc \<and> costPerLine b = cpl \<and> families b = fams"
proof (induction now k c e tc cpl fams rule: batchLoop.induct)
  case (1 now k c e tc cpl fams)
  show ?case
  proof (cases "getTime c \<le> getTime e")
    case True
    with "1.prems" have "b = \<lparr> bill_id = now k + getTime c, billMonth = formatBillMonth (Some c),
             totalCost = tc, costPerLine = cpl, families = fams \<rparr>
           \<or> b \<in> set (batchLoop now (Suc k) (setMonthNext c) e tc cpl fams)"
      by (subst (asm) batchLoop.simps) simp
    then show ?thesis using "1.IH" [OF True] by auto
  next
    case False
    with "1.prems" show ?thesis by (subst (asm) batchLoop.simps) simp
  qed
qed

lemma batchLoop_ids_lower:
  "\<forall>i j. i \<le> j \<longrightarrow> now i \<le> now j \<Longrightarrow> b \<in> set (batchLoop now k c e tc cpl fams)
   \<Longrightarrow> now k + getTime c \<le> bill_id b"
proof (induction now k c e tc cpl fams rule: batchLoop.induct)
  case (1 now k c e tc cpl fams)
  show ?case
  proof (cases "getTime c \<le> getTime e")
    case True
    with "1.prems"(2) have "b = \<lparr> bill_id = now k + getTime c, billMonth = formatBillMonth (Some c),
             totalCost = tc, costPerLine = cpl, families = fams \<rparr>
           \<or> b \<in> set (batchLoop now (Suc k) (setMonthNext c) e tc cpl fams)"
      by (subst (asm) batchLoop.simps) simp
    then show ?thesis
    proof
      assume "b = \<lparr> bill_id = now k + getTime c, billMonth = formatBillMonth (Some c),
             totalCost = tc, costPerLine = cpl, families = fams \<rparr>"
      then show ?thesis by simp
    next
      assume "b \<in> set (batchLoop now (Suc k) (setMonthNext c) e tc cpl fams)"
      then have "now (Suc k) + getTime (setMonthNext c) \<le> bill_id b"
        using "1.IH" [OF True "1.prems"(1)] by blast
      moreover have "now k \<le> now (Suc k)" using "1.prems"(1) by simp
      moreover have "getTime c < getTime (setMonthNext c)" by (rule getTime_setMonthNext_less)
      ultimately show ?thesis by linarith
    qed
  next
    case False
    with "1.prems"(2) show ?thesis by (subst (asm) batchLoop.simps) simp
  qed
qed

lemma batchLoop_ids_increasing:
  "\<forall>i j. i \<le> j \<longrightarrow> now i \<le> now j
   \<Longrightarrow> sorted_wrt (<) (map bill_id (batchLoop now k c e tc cpl fams))"
proof (induction now k c e tc cpl fams rule: batchLoop.induct)
  case (1 now k c e tc cpl fams)
  show ?case
  proof (cases "getTime c \<le> getTime e")
    case True
    let ?rest = "batchLoop now (Suc k) (setMonthNext c) e tc cpl fams"
    have unfold: "batchLoop now k c e tc cpl fams
          = \<lparr> bill_id = now k + getTime c, billMonth = formatBillMonth (Some c),
              totalCost = tc, costPerLine = cpl, families = fams \<rparr> # ?rest"
      using True by (subst batchLoop.simps) simp
    have later: "now k + getTime c < bill_id b" if "b \<in> set ?rest" for b
    proof -
      have "now (Suc k) + getTime (setMonthNext c) \<le> bill_id b"
        using batchLoop_ids_lower [OF "1.prems" that] .
      moreover have "now k \<le> now (Suc k)" using "1.prems" by simp
      moreover have "getTime c < getTime (setMonthNext c)" by (rule getTime_setMonthNext_less)
      ultimately show ?thesis by linarith
    qed
    show ?thesis
      unfolding unfold using later "1.IH" [OF True "1.prems"] by auto
  next
    case False
    then show ?thesis by (subst batchLoop.simps) simp
  qed
qed

lemma batchLoop_ids_distinct:
  "\<forall>i j. i \<le> j \<longrightarrow> now i \<le> now j
   \<Longrightarrow> distinct (map bill_id (batchLoop now k c e tc cpl fams))"
  using batchLoop_ids_increasing [of now k c e tc cpl fams]
  by (simp add: strict_sorted_iff)

lemma handleBatchCreate_failure_keeps_store:
  "fst (handleBatchCreate now st store) = Inl e \<Longrightarrow> snd (handleBatchCreate now st store) = store"
  by (auto simp add: handleBatchCreate_def Let_def split: option.splits if_splits sum.splits)

lemma handleBatchCreate_no_fault:
  "fst (handleBatchCreate now st store) \<noteq> Inl (Fault f)"
  by (auto simp add: handleBatchCreate_def Let_def costPerLineOf_eq split: option.splits if_splits)

lemma handleBatchCreate_success:
  assumes "fst (handleBatchCreate now st store) = Inr newBills"
  shows "\<exists>s e. startDate st = Some s \<and> endDate st = Some e
           \<and> selectedFamilyIds st \<noteq> {} \<and> bc_totalCost st \<noteq> []
           \<and> getTime s \<le> getTime e \<and> 0 \<le> batchTotalLineCost st
           \<and> newBills = batchLoop now 0 s e (orZero (parseFloat (bc_totalCost st)))
                 (if batchTotalLines st > 0
                  then batchTotalLineCost st / real_of_int (batchTotalLines st) else 0)
                 (map (familyForBill st) (selectedFamilies st))
           \<and> snd (handleBatchCreate now st store) = Some (existingBills store @ newBills)"
  using assms
  by (auto simp add: handleBatchCreate_def Let_def costPerLineOf_eq split: option.splits if_splits)

text \<open>A range of one day gives one bill.\<close>

lemma batchLoop_same_date:
  "batchLoop now k d d tc cpl fams
   = [\<lparr> bill_id = now k + getTime d, billMonth = formatBillMonth (Some d),
         totalCost = tc, costPerLine = cpl, families = fams \<rparr>]"
proof -
  have "\<not> getTime (setMonthNext d) \<le> getTime d"
    using getTime_setMonthNext_less [of d] by simp
  then have "batchLoop now (Suc k) (setMonthNext d) d tc cpl fams = []"
    by (subst batchLoop.simps) simp
  then show ?thesis
    by (subst batchLoop.simps) simp
qed

lemma handleBatchCreate_same_date:
  assumes "fst (handleBatchCreate now st store) = Inr newBills"
    and "startDate st = endDate st"
  shows "length newBills = 1"
proof -
  from handleBatchCreate_success [OF assms(1)] obtain s e tc cpl fams where
    "startDate st = Some s" "endDate st = Some e" "newBills = batchLoop now 0 s e tc cpl fams"
    by blast
  with assms(2) have "newBills = batchLoop now 0 s s tc cpl fams"
    by simp
  then show ?thesis by (simp add: batchLoop_same_date)
qed

text \<open>
  The bills of a batch over families with lines share the total among the families: the
  family totals of each bill add up to its total cost.
\<close>

lemma batch_total_preserving:
  assumes "fst (handleBatchCreate now st store) = Inr newBills"
    and "0 < batchTotalLines st" and "b \<in> set newBills"
  shows "sum_list (map (familyTotalCost (costPerLine b)) (families b)) = totalCost b"
proof -
  let ?n = "batchTotalLines st"
  let ?fs = "map (familyForBill st) (selectedFamilies st)"
  let ?cpl = "batchTotalLineCost st / real_of_int ?n"
  from handleBatchCreate_success [OF assms(1)] assms(2) obtain s e where
    "newBills = batchLoop now 0 s e (orZero (parseFloat (bc_totalCost st))) ?cpl ?fs"
    by auto
  with assms(3) have b: "totalCost b = orZero (parseFloat (bc_totalCost st))"
    "costPerLine b = ?cpl" "families b = ?fs"
    using batchLoop_fields by blast+
  have n: "sum_list (map lines ?fs) = ?n"
    by (simp add: batchTotalLines_def foldl_add_sum_list)
  have x: "sum_list (map (\<lambda>f. cost (extraService f)) ?fs) = batchTotalExtra st"
    by (simp add: batchTotalExtra_def foldl_add_sum_list familyForBill_def comp_def)
  have "sum_list (map (familyTotalCost ?cpl) ?fs) = real_of_int ?n * ?cpl + batchTotalExtra st"
    by (simp only: sum_familyTotalCost n x)
  moreover have "real_of_int ?n * ?cpl = batchTotalLineCost st"
    using assms(2) by simp
  ultimately show ?thesis
    by (simp add: b batchTotalLineCost_def)
qed

subsection \<open>Example runs\<close>

lemmas ex_dates =
  d2024_01_01_def d2024_01_31_def d2024_02_01_def d2024_03_01_def d2024_03_02_def d2024_03_31_def
  d2024_04_01_def d2024_04_02_def d2024_01_10_def d2024_01_15_def d2024_01_20_def d2024_02_15_def
  d2024_03_10_def d2024_03_15_def

lemma daysBeforeMonth_numeral:
  "daysBeforeMonth y (numeral n)
   = daysBeforeMonth y (pred_numeral n) + int (daysInMonth y (pred_numeral n))"
  by (simp add: numeral_eq_Suc)

lemma getTime_2024:
  "getTime d2024_01_01 = 1704067200000"
  "getTime d2024_01_31 = 1706659200000"
  "getTime d2024_02_01 = 1706745600000"
  "getTime d2024_03_01 = 1709251200000"
  "getTime d2024_03_02 = 1709337600000"
  "getTime d2024_03_31 = 1711843200000"
  "getTime d2024_04_01 = 1711929600000"
  "getTime d2024_04_02 = 1712016000000"
  "getTime d2024_01_10 = 1704844800000"
  "getTime d2024_01_15 = 1705276800000"
  "getTime d2024_01_20 = 1705708800000"
  "getTime d2024_02_15 = 1707955200000"
  "getTime d2024_03_10 = 1710028800000"
  "getTime d2024_03_15 = 1710460800000"
  by (simp_all add: ex_dates getTime_def makeDay_def dayFromYear_def msPerDay_def
      daysBeforeMonth_numeral daysInMonth_def inLeapYear_def)

lemma setMonthNext_2024:
  "setMonthNext d2024_01_01 = d2024_02_01"
  "setMonthNext d2024_02_01 = d2024_03_01"
  "setMonthNext d2024_03_01 = d2024_04_01"
  "setMonthNext d2024_01_31 = d2024_03_02"
  "setMonthNext d2024_03_02 = d2024_04_02"
  "setMonthNext d2024_01_15 = d2024_02_15"
  "setMonthNext d2024_02_15 = d2024_03_15"
  by (simp_all add: ex_dates setMonthNext_def daysInMonth_def inLeapYear_def)

lemma formatBillMonth_2024:
  "formatBillMonth (Some d2024_01_01) = token ''2024'' ''01''"
  "formatBillMonth (Some d2024_01_31) = token ''2024'' ''01''"
  "formatBillMonth (Some d2024_02_01) = token ''2024'' ''02''"
  "formatBillMonth (Some d2024_03_01) = token ''2024'' ''03''"
  "formatBillMonth (Some d2024_03_02) = token ''2024'' ''03''"
  "formatBillMonth (Some d2024_01_15) = token ''2024'' ''01''"
  "formatBillMonth (Some d2024_02_15) = token ''2024'' ''02''"
  by (simp_all add: formatBillMonth_def ex_dates token_def js_eval)

lemma parse_examples:
  "parseFloat (ascii ''100'') = Some 100"
  "parseFloat (ascii ''20'') = Some 20"
  "parseFloat (ascii ''150'') = Some 150"
  "parseFloat (ascii ''0'') = Some 0"
  "parseFloat (ascii ''abc'') = None"
  "parseFloat [] = None"
  by (simp_all add: js_eval)

lemma ex_batch_parts:
  "selectedFamilies (ex_batch ms tot extra s e) = [\<lparr> sf_id = 1, sf_name = ascii ''A'', members = ms \<rparr>]"
  "batchTotalExtra (ex_batch ms tot extra s e) = orZero (parseFloat extra)"
  "batchTotalLines (ex_batch ms tot extra s e) = int (length ms)"
  "batchTotalLineCost (ex_batch ms tot extra s e) = orZero (parseFloat tot) - orZero (parseFloat extra)"
  "familyForBill (ex_batch ms tot extra s e) \<lparr> sf_id = 1, sf_name = ascii ''A'', members = ms \<rparr>
   = ex_familyInBill (int (length ms)) (orZero (parseFloat extra))"
  by (simp_all add: selectedFamilies_def batchExtraCost_def batchTotalExtra_def batchTotalLines_def
      batchTotalLineCost_def familyForBill_def ex_batch_def ex_familyInBill_def)

lemma ex_batch_run:
  assumes "tot \<noteq> []" "getTime s \<le> getTime e"
    and "orZero (parseFloat extra) \<le> orZero (parseFloat tot)"
  shows "handleBatchCreate now (ex_batch ms tot extra (Some s) (Some e)) store
         = (Inr (batchLoop now 0 s e (orZero (parseFloat tot))
                   (if ms \<noteq> [] then (orZero (parseFloat tot) - orZero (parseFloat extra)) / real (length ms) else 0)
                   [ex_familyInBill (int (length ms)) (orZero (parseFloat extra))]),
            Some (existingBills store
                  @ batchLoop now 0 s e (orZero (parseFloat tot))
                   (if ms \<noteq> [] then (orZero (parseFloat tot) - orZero (parseFloat extra)) / real (length ms) else 0)
                   [ex_familyInBill (int (length ms)) (orZero (parseFloat extra))]))"
proof -
  let ?st = "ex_batch ms tot extra (Some s) (Some e)"
  have fields: "selectedFamilyIds ?st = {1}" "bc_totalCost ?st = tot"
    "startDate ?st = Some s" "endDate ?st = Some e"
    by (simp_all add: ex_batch_def)
  show ?thesis
    using assms
    by (simp add: handleBatchCreate_def fields ex_batch_parts costPerLineOf_eq Let_def)
qed

lemma ascii_nonempty: "ascii ''100'' \<noteq> []" "ascii ''abc'' \<noteq> []"
  by (simp_all add: ascii_def)

lemma batch_jan31_mar31:
  "handleBatchCreate (clockFrom 1700000000000)
     (ex_batch two_members (ascii ''100'') (ascii ''20'') (Some d2024_01_31) (Some d2024_03_31)) None
   = (Inr [ex_bill 3406659200000 (token ''2024'' ''01'') 100 40 2 20,
           ex_bill 3409337600001 (token ''2024'' ''03'') 100 40 2 20],
      Some [ex_bill 3406659200000 (token ''2024'' ''01'') 100 40 2 20,
            ex_bill 3409337600001 (token ''2024'' ''03'') 100 40 2 20])"
  by (simp add: ex_batch_run ascii_nonempty getTime_2024 parse_examples orZero_def two_members_def
      batchLoop.simps setMonthNext_2024 formatBillMonth_2024 clockFrom_def existingBills_def ex_bill_def)

lemma batch_jan1_mar1:
  "handleBatchCreate (clockFrom 1700000000000)
     (ex_batch two_members (ascii ''100'') (ascii ''20'') (Some d2024_01_01) (Some d2024_03_01)) None
   = (Inr [ex_bill 3404067200000 (token ''2024'' ''01'') 100 40 2 20,
           ex_bill 3406745600001 (token ''2024'' ''02'') 100 40 2 20,
           ex_bill 3409251200002 (token ''2024'' ''03'') 100 40 2 20],
      Some [ex_bill 3404067200000 (token ''2024'' ''01'') 100 40 2 20,
           ex_bill 3406745600001 (token ''2024'' ''02'') 100 40 2 20,
           ex_bill 3409251200002 (token ''2024'' ''03'') 100 40 2 20])"
  by (simp add: ex_batch_run ascii_nonempty getTime_2024 parse_examples orZero_def two_members_def
      batchLoop.simps setMonthNext_2024 formatBillMonth_2024 clockFrom_def existingBills_def ex_bill_def)

lemma batch_no_members:
  "handleBatchCreate (clockFrom 1700000000000)
     (ex_batch [] (ascii ''100'') (ascii ''20'') (Some d2024_01_01) (Some d2024_01_01)) None
   = (Inr [ex_bill 3404067200000 (token ''2024'' ''01'') 100 0 0 20],
      Some [ex_bill 3404067200000 (token ''2024'' ''01'') 100 0 0 20])"
  by (simp add: ex_batch_run ascii_nonempty getTime_2024 parse_examples orZero_def
      batchLoop.simps setMonthNext_2024 formatBillMonth_2024 clockFrom_def existingBills_def ex_bill_def)

lemma batch_feb_then_jan:
  "handleBatchCreate (clockFrom 1700000000000)
     (ex_batch two_members (ascii ''100'') (ascii ''20'') (Some d2024_02_01) (Some d2024_02_01)) None
   = (Inr [ex_bill 3406745600000 (token ''2024'' ''02'') 100 40 2 20],
      Some [ex_bill 3406745600000 (token ''2024'' ''02'') 100 40 2 20])"
  "handleBatchCreate (clockFrom 1702678400000)
     (ex_batch two_members (ascii ''100'') (ascii ''20'') (Some d2024_01_01) (Some d2024_01_01))
     (Some [ex_bill 3406745600000 (token ''2024'' ''02'') 100 40 2 20])
   = (Inr [ex_bill 3406745600000 (token ''2024'' ''01'') 100 40 2 20],
      Some [ex_bill 3406745600000 (token ''2024'' ''02'') 100 40 2 20,
            ex_bill 3406745600000 (token ''2024'' ''01'') 100 40 2 20])"
  by (simp_all add: ex_batch_run ascii_nonempty getTime_2024 parse_examples orZero_def two_members_def
      batchLoop.simps setMonthNext_2024 formatBillMonth_2024 clockFrom_def existingBills_def ex_bill_def)

text \<open>Two more runs in which the day of the month decides: from the 15th of January to
  the 10th of March there is no bill for March, and from the 20th to the 10th of January
  the range counts as inverted.\<close>

lemma batch_jan15_mar10:
  "handleBatchCreate (clockFrom 1700000000000)
     (ex_batch two_members (ascii ''100'') (ascii ''20'') (Some d2024_01_15) (Some d2024_03_10)) None
   = (Inr [ex_bill 3405276800000 (token ''2024'' ''01'') 100 40 2 20,
           ex_bill 3407955200001 (token ''2024'' ''02'') 100 40 2 20],
      Some [ex_bill 3405276800000 (token ''2024'' ''01'') 100 40 2 20,
            ex_bill 3407955200001 (token ''2024'' ''02'') 100 40 2 20])"
  by (simp add: ex_batch_run ascii_nonempty getTime_2024 parse_examples orZero_def two_members_def
      batchLoop.simps setMonthNext_2024 formatBillMonth_2024 clockFrom_def existingBills_def ex_bill_def)

lemma batch_jan20_jan10:
  "handleBatchCreate now
     (ex_batch two_members (ascii ''100'') (ascii ''20'') (Some d2024_01_20) (Some d2024_01_10)) store
   = (Inl DateOrder, store)"
proof -
  let ?st = "ex_batch two_members (ascii ''100'') (ascii ''20'') (Some d2024_01_20) (Some d2024_01_10)"
  have fields: "selectedFamilyIds ?st = {1}" "bc_totalCost ?st = ascii ''100''"
    "startDate ?st = Some d2024_01_20" "endDate ?st = Some d2024_01_10"
    by (simp_all add: ex_batch_def)
  show ?thesis
    by (simp add: handleBatchCreate_def fields ascii_nonempty getTime_2024)
qed

text \<open>
  C2.  In the single bill and in the batch, a total line count of zero gives the rate 0
  whatever the total cost and the extra costs are, and the division is never carried out
  with a zero divisor: neither calculation can end in the division fault.
\<close>

theorem costPerLine_zero_without_lines:
  "(\<exists>r. handleCalculate st = Inr r
        \<and> (totalLines (familiesInBill st) = 0 \<longrightarrow> rd_costPerLine r = 0))
   \<and> (\<forall>f. fst (handleBatchCreate now bst store) \<noteq> Inl (Fault f))
   \<and> (batchTotalLines bst = 0 \<longrightarrow>
        (\<forall>newBills. fst (handleBatchCreate now bst store) = Inr newBills
           \<longrightarrow> (\<forall>b \<in> set newBills. costPerLine b = 0)))"
proof (intro conjI allI impI ballI)
  show "\<exists>r. handleCalculate st = Inr r
        \<and> (totalLines (familiesInBill st) = 0 \<longrightarrow> rd_costPerLine r = 0)"
    by (simp add: handleCalculate_eq)
next
  fix f show "fst (handleBatchCreate now bst store) \<noteq> Inl (Fault f)"
    by (rule handleBatchCreate_no_fault)
next
  fix newBills b
  assume zero: "batchTotalLines bst = 0"
    and ok: "fst (handleBatchCreate now bst store) = Inr newBills"
    and b: "b \<in> set newBills"
  from handleBatchCreate_success [OF ok] zero obtain s e where
    "newBills = batchLoop now 0 s e (orZero (parseFloat (bc_totalCost bst))) 0
                  (map (familyForBill bst) (selectedFamilies bst))"
    by auto
  with b show "costPerLine b = 0"
    using batchLoop_fields by blast
qed

theorem costPerLine_zero_without_lines_witness:
  "totalLines (familiesInBill ex_noLines) = 0
   \<and> batchTotalLines (ex_batch [] (ascii ''100'') (ascii ''20'') (Some d2024_01_01) (Some d2024_01_01)) = 0
   \<and> fst (handleBatchCreate (clockFrom 1700000000000)
            (ex_batch [] (ascii ''100'') (ascii ''20'') (Some d2024_01_01) (Some d2024_01_01)) None)
       = Inr [ex_bill 3404067200000 (token ''2024'' ''01'') 100 0 0 20]
   \<and> costPerLine (ex_bill 3404067200000 (token ''2024'' ''01'') 100 0 0 20) = 0"
  using costPerLine_zero_without_lines
    [of ex_noLines "clockFrom 1700000000000"
        "ex_batch [] (ascii ''100'') (ascii ''20'') (Some d2024_01_01) (Some d2024_01_01)" None]
  by (simp add: batch_no_members ex_batch_parts)
     (simp add: ex_noLines_def totalLines_def linesOf_def js_eval)

text \<open>
  C3 (the code departs from the claim).  The form asks for a start month and an end month
  and shows only the year and the month of the two dates, but the loop compares whole dates
  and advances with \<open>setMonth\<close>, which keeps the day of the month.  From the 31st of January
  to the 31st of March 2024 the second date of the loop is the 2nd of March: the batch has
  two bills, for January and March, and none for February.
\<close>

theorem batch_skips_february:
  "fst (handleBatchCreate (clockFrom 1700000000000)
         (ex_batch two_members (ascii ''100'') (ascii ''20'') (Some d2024_01_31) (Some d2024_03_31))
         None)
   = Inr [ex_bill 3406659200000 (token ''2024'' ''01'') 100 40 2 20,
          ex_bill 3409337600001 (token ''2024'' ''03'') 100 40 2 20]"
  by (simp add: batch_jan31_mar31)

text \<open>
  C8 (as stated, refuted).  The id of a bill is the clock reading plus the time value of
  its month, and nothing compares it with the ids already stored.  A batch for February
  2024 made at 1700000000000, and a batch for January 2024 made 31 days later on the bills
  of the first, give two stored bills with the id 3406745600000.
\<close>

theorem batch_ids_counterexample:
  "snd (handleBatchCreate (clockFrom 1702678400000)
          (ex_batch two_members (ascii ''100'') (ascii ''20'') (Some d2024_01_01) (Some d2024_01_01))
          (snd (handleBatchCreate (clockFrom 1700000000000)
                  (ex_batch two_members (ascii ''100'') (ascii ''20'')
                     (Some d2024_02_01) (Some d2024_02_01))
                  None)))
   = Some [ex_bill 3406745600000 (token ''2024'' ''02'') 100 40 2 20,
           ex_bill 3406745600000 (token ''2024'' ''01'') 100 40 2 20]
   \<and> \<not> distinct (map bill_id [ex_bill 3406745600000 (token ''2024'' ''02'') 100 40 2 20,
                               ex_bill 3406745600000 (token ''2024'' ''01'') 100 40 2 20])"
  by (simp add: batch_feb_then_jan) (simp add: ex_bill_def)

text \<open>
  C8 (amended).  When the clock does not go backwards during the run, the ids of the bills
  of one batch are strictly increasing, hence pairwise distinct.  The ids already stored
  play no part.
\<close>

theorem batch_ids_distinct_within_run:
  assumes "mono now"
    and "fst (handleBatchCreate now st store) = Inr newBills"
  shows "sorted_wrt (<) (map bill_id newBills) \<and> distinct (map bill_id newBills)"
proof -
  have clock: "\<forall>i j. i \<le> j \<longrightarrow> now i \<le> now j"
    using assms(1) by (simp add: mono_def)
  from handleBatchCreate_success [OF assms(2)] obtain s e tc cpl where
    "newBills = batchLoop now 0 s e tc cpl (map (familyForBill st) (selectedFamilies st))"
    by blast
  then show ?thesis
    using batchLoop_ids_increasing [OF clock] batchLoop_ids_distinct [OF clock] by simp
qed

theorem batch_ids_distinct_within_run_witness:
  "mono (clockFrom 1700000000000)
   \<and> fst (handleBatchCreate (clockFrom 1700000000000)
            (ex_batch two_members (ascii ''100'') (ascii ''20'') (Some d2024_01_01) (Some d2024_03_01))
            None)
       = Inr [ex_bill 3404067200000 (token ''2024'' ''01'') 100 40 2 20,
              ex_bill 3406745600001 (token ''2024'' ''02'') 100 40 2 20,
              ex_bill 3409251200002 (token ''2024'' ''03'') 100 40 2 20]
   \<and> distinct (map bill_id [ex_bill 3404067200000 (token ''2024'' ''01'') 100 40 2 20,
                             ex_bill 3406745600001 (token ''2024'' ''02'') 100 40 2 20,
                             ex_bill 3409251200002 (token ''2024'' ''03'') 100 40 2 20])"
proof -
  have clock: "mono (clockFrom 1700000000000)"
    by (simp add: mono_def clockFrom_def)
  have run: "fst (handleBatchCreate (clockFrom 1700000000000)
            (ex_batch two_members (ascii ''100'') (ascii ''20'') (Some d2024_01_01) (Some d2024_03_01))
            None)
       = Inr [ex_bill 3404067200000 (token ''2024'' ''01'') 100 40 2 20,
              ex_bill 3406745600001 (token ''2024'' ''02'') 100 40 2 20,
              ex_bill 3409251200002 (token ''2024'' ''03'') 100 40 2 20]"
    by (simp add: batch_jan1_mar1)
  show ?thesis
    using clock run batch_ids_distinct_within_run [OF clock run] by simp
qed

section \<open>Properties of binary64 arithmetic\<close>

text \<open>
  What the checks of the batch need of the rounding: a Number value is a multiple of
  \<open>2^(-1074)\<close>; the difference of two such multiples, when it is not zero, does not round
  to zero, so that the sign of a computed difference is the sign of the exact one; and a
  real that is a binary64 value is its own Number value.
\<close>

lemma roundHalfEven_int [simp]: "roundHalfEven (real_of_int m) = m"
  by (simp add: roundHalfEven_def)

lemma roundHalfEven_le: "q \<le> - 1 \<Longrightarrow> roundHalfEven q \<le> - 1"
  unfolding roundHalfEven_def Let_def
  by (auto; linarith)

lemma roundHalfEven_nonneg: "0 \<le> q \<Longrightarrow> 0 \<le> roundHalfEven q"
  unfolding roundHalfEven_def Let_def
  by (auto; linarith)

lemma pow2_powr: "pow2 e = 2 powr real_of_int e"
  by (simp add: pow2_def powr_int)

lemma pow2_pos [simp]: "0 < pow2 e"
  by (simp add: pow2_powr)

lemma pow2_nonneg [simp]: "0 \<le> pow2 e" "\<not> pow2 e \<le> 0" "\<bar>pow2 e\<bar> = pow2 e"
  by (simp_all add: pow2_powr)

lemma pow2_numeral: "pow2 (numeral n) = 2 ^ numeral n"
  by (simp add: pow2_def)

lemma pow2_add: "pow2 (a + b) = pow2 a * pow2 b"
  by (simp add: pow2_powr powr_add)

lemma pow2_nat: "pow2 (int n) = 2 ^ n"
  by (simp add: pow2_def)

lemma pow2_mono: "a \<le> b \<Longrightarrow> pow2 a \<le> pow2 b"
  by (simp add: pow2_powr)

lemma pow2_less_iff: "pow2 a < pow2 b \<longleftrightarrow> a < b"
  by (simp add: pow2_powr)

lemma binadeSearch_spec:
  "- 1022 \<le> binadeSearch n x \<and> binadeSearch n x \<le> int n - 1022
   \<and> (- 1022 < binadeSearch n x \<longrightarrow> pow2 (binadeSearch n x) \<le> \<bar>x\<bar>)
   \<and> (binadeSearch n x < int n - 1022 \<longrightarrow> \<bar>x\<bar> < pow2 (binadeSearch n x + 1))"
proof (induction n)
  case 0
  show ?case by simp
next
  case (Suc n)
  show ?case
  proof (cases "pow2 (int (Suc n) - 1022) \<le> \<bar>x\<bar>")
    case True
    then show ?thesis by simp
  next
    case False
    then have eq: "binadeSearch (Suc n) x = binadeSearch n x"
      by simp
    have "\<bar>x\<bar> < pow2 (binadeSearch n x + 1)"
    proof (cases "binadeSearch n x < int n - 1022")
      case True
      with Suc show ?thesis by blast
    next
      case False
      with Suc have "binadeSearch n x = int n - 1022" by linarith
      moreover have "\<bar>x\<bar> < pow2 (int (Suc n) - 1022)"
        using \<open>\<not> pow2 (int (Suc n) - 1022) \<le> \<bar>x\<bar>\<close> by simp
      ultimately show ?thesis by (simp add: add.commute)
    qed
    with Suc show ?thesis
      unfolding eq by auto
  qed
qed

lemma binade_lower: "- 1022 \<le> binade x"
  and binade_upper: "binade x \<le> 1023"
  and binade_le: "- 1022 < binade x \<Longrightarrow> pow2 (binade x) \<le> \<bar>x\<bar>"
  and binade_less: "binade x < 1023 \<Longrightarrow> \<bar>x\<bar> < pow2 (binade x + 1)"
  using binadeSearch_spec [of 2045 x] by (simp_all add: binade_def)

lemma binade_eqI:
  assumes "- 1022 < m" "m \<le> 1023" "pow2 m \<le> \<bar>x\<bar>" "\<bar>x\<bar> < pow2 (m + 1)"
  shows "binade x = m"
proof (rule ccontr)
  assume ne: "binade x \<noteq> m"
  show False
  proof (cases "binade x < m")
    case True
    then have "\<bar>x\<bar> < pow2 (binade x + 1)"
      using assms(2) by (intro binade_less) simp
    also have "\<dots> \<le> pow2 m"
      using True by (intro pow2_mono) simp
    finally show False using assms(3) by simp
  next
    case False
    with ne have gt: "m < binade x" by simp
    then have "pow2 (binade x) \<le> \<bar>x\<bar>"
      using assms(1) by (intro binade_le) simp
    moreover have "pow2 (m + 1) \<le> pow2 (binade x)"
      using gt by (intro pow2_mono) simp
    ultimately show False using assms(4) by simp
  qed
qed

lemma ulp_pos: "0 < ulp x"
  by (simp add: ulp_def)

lemma ulp_grid: "\<exists>j::nat. ulp x = 2 ^ j * pow2 (- 1074)"
proof -
  have "- 1074 \<le> binade x - 52"
    using binade_lower [of x] by simp
  then obtain j :: nat where j: "binade x - 52 = int j + (- 1074)"
    by (metis add.commute diff_add_cancel nonneg_int_cases uminus_add_conv_diff diff_ge_0_iff_ge)
  have "ulp x = pow2 (int j) * pow2 (- 1074)"
    unfolding ulp_def j by (rule pow2_add)
  then show ?thesis
    by (auto simp add: pow2_nat)
qed

lemma numberValue_grid:
  assumes "numberValue x = Fin r"
  shows "onGrid r"
proof (cases "x = 0")
  case True
  with assms have "r = 0" by (simp add: numberValue_def)
  then show ?thesis by (simp add: onGrid_def)
next
  case False
  with assms have r: "r = real_of_int (roundHalfEven (x / ulp x)) * ulp x"
    by (simp add: numberValue_def Let_def split: if_splits)
  obtain j :: nat where "ulp x = 2 ^ j * pow2 (- 1074)"
    using ulp_grid by blast
  then have "r = real_of_int (roundHalfEven (x / ulp x) * 2 ^ j) * pow2 (- 1074)"
    by (simp add: r)
  then show ?thesis
    unfolding onGrid_def by blast
qed

lemma ulp_le_abs:
  assumes "x \<noteq> 0" "onGrid x"
  shows "ulp x \<le> \<bar>x\<bar>"
proof (cases "- 1022 < binade x")
  case True
  have "ulp x \<le> pow2 (binade x)"
    unfolding ulp_def by (rule pow2_mono) simp
  also have "\<dots> \<le> \<bar>x\<bar>"
    by (rule binade_le [OF True])
  finally show ?thesis .
next
  case False
  then have "binade x = - 1022"
    using binade_lower [of x] by simp
  then have u: "ulp x = pow2 (- 1074)"
    by (simp add: ulp_def)
  from assms(2) obtain n :: int where n: "x = real_of_int n * pow2 (- 1074)"
    unfolding onGrid_def by blast
  with assms(1) have "n \<noteq> 0" by auto
  then have "1 \<le> \<bar>n\<bar>"
    by simp
  then have "real_of_int 1 \<le> real_of_int \<bar>n\<bar>"
    by (simp only: of_int_le_iff)
  then have "1 \<le> \<bar>real_of_int n\<bar>"
    by simp
  then have "1 * pow2 (- 1074) \<le> \<bar>real_of_int n\<bar> * pow2 (- 1074)"
    by (rule mult_right_mono) (simp add: less_imp_le)
  then have "pow2 (- 1074) \<le> \<bar>x\<bar>"
    by (simp add: n abs_mult)
  then show ?thesis
    by (simp only: u)
qed

lemma numberValue_neg:
  assumes "x < 0" "onGrid x"
  shows "numberValue x = NInf \<or> (\<exists>r. r < 0 \<and> numberValue x = Fin r)"
proof -
  have "ulp x \<le> - x"
    using ulp_le_abs [of x] assms by simp
  then have "x / ulp x \<le> - 1"
    using ulp_pos [of x] by (simp add: pos_divide_le_eq)
  then have "roundHalfEven (x / ulp x) \<le> - 1"
    by (rule roundHalfEven_le)
  then have "real_of_int (roundHalfEven (x / ulp x)) < 0"
    by simp
  then have "real_of_int (roundHalfEven (x / ulp x)) * ulp x < 0"
    using ulp_pos [of x] by (simp add: mult_less_0_iff)
  then show ?thesis
    using assms(1) by (simp add: numberValue_def Let_def)
qed

lemma numberValue_nonneg:
  assumes "0 \<le> x"
  shows "numberValue x = PInf \<or> (\<exists>r. 0 \<le> r \<and> numberValue x = Fin r)"
proof (cases "x = 0")
  case True
  then show ?thesis by (simp add: numberValue_def)
next
  case False
  have "0 \<le> x / ulp x"
    using assms ulp_pos [of x] by simp
  then have "0 \<le> roundHalfEven (x / ulp x)"
    by (rule roundHalfEven_nonneg)
  then have "0 \<le> real_of_int (roundHalfEven (x / ulp x)) * ulp x"
    using ulp_pos [of x] by simp
  then show ?thesis
    using assms False by (simp add: numberValue_def Let_def)
qed

lemma numberValue_exact:
  assumes x: "x = real_of_int m * pow2 k"
    and m: "\<bar>m\<bar> < 2 ^ 53" and k: "- 1074 \<le> k" "k \<le> 971"
  shows "numberValue x = Fin x"
proof (cases "x = 0")
  case True
  then show ?thesis by (simp add: numberValue_def)
next
  case False
  have lt: "\<bar>x\<bar> < pow2 (k + 53)"
  proof -
    have "\<bar>real_of_int m\<bar> < 2 ^ 53"
      using m by (metis of_int_abs of_int_less_numeral_power_cancel_iff)
    then have "\<bar>real_of_int m\<bar> * pow2 k < 2 ^ 53 * pow2 k"
      by (simp add: mult_less_cancel_right)
    also have "\<dots> = pow2 (k + 53)"
      by (simp add: pow2_add pow2_numeral mult.commute)
    finally show ?thesis by (simp add: x abs_mult)
  qed
  have le: "binade x - 52 \<le> k"
  proof (cases "- 1022 < binade x")
    case True
    have "pow2 (binade x) < pow2 (k + 53)"
      using binade_le [OF True] lt by linarith
    then have "binade x < k + 53"
      by (simp only: pow2_less_iff)
    then show ?thesis by simp
  next
    case False
    then have "binade x = - 1022"
      using binade_lower [of x] by simp
    with k show ?thesis by simp
  qed
  then obtain d :: nat where d: "k = (binade x - 52) + int d"
    by (metis add.commute diff_add_cancel nonneg_int_cases diff_ge_0_iff_ge)
  have p: "pow2 k = ulp x * 2 ^ d"
    unfolding d ulp_def by (simp add: pow2_add pow2_nat)
  have "x = real_of_int m * (ulp x * 2 ^ d)"
    by (simp only: flip: p) (rule x)
  also have "\<dots> = real_of_int (m * 2 ^ d) * ulp x"
    by simp
  finally have xu: "x = real_of_int (m * 2 ^ d) * ulp x" .
  then have "x / ulp x = real_of_int (m * 2 ^ d)"
    using ulp_pos [of x] by (metis nonzero_mult_div_cancel_right less_irrefl)
  then have r: "real_of_int (roundHalfEven (x / ulp x)) * ulp x = x"
    using xu by (simp only: roundHalfEven_int)
  have "pow2 (k + 53) \<le> pow2 (int 1024)"
    using k by (intro pow2_mono) simp
  also have "\<dots> = 2 ^ 1024"
    by (rule pow2_nat)
  finally have "\<bar>x\<bar> < 2 ^ 1024"
    using lt by linarith
  then show ?thesis
    using False by (simp add: numberValue_def Let_def r)
qed

lemma numberValue_int:
  assumes "\<bar>m\<bar> < 2 ^ 53"
  shows "numberValue (real_of_int m) = Fin (real_of_int m)"
  using numberValue_exact [of "real_of_int m" m 0] assms by (simp add: pow2_def)

lemma isDouble_numberValue [simp]: "isDouble (numberValue x)"
  by (cases "numberValue x") (simp_all add: numberValue_grid)

lemma onGrid_0 [simp]: "onGrid 0"
  by (simp add: onGrid_def)

lemma onGrid_diff: "onGrid a \<Longrightarrow> onGrid b \<Longrightarrow> onGrid (a - b)"
proof -
  assume "onGrid a" "onGrid b"
  then obtain n m :: int where "a = real_of_int n * pow2 (- 1074)" "b = real_of_int m * pow2 (- 1074)"
    unfolding onGrid_def by blast
  then have "a - b = real_of_int (n - m) * pow2 (- 1074)"
    by (simp add: algebra_simps)
  then show ?thesis unfolding onGrid_def by blast
qed

lemma isDouble_js_add [simp]: "isDouble (js_add a b)"
  by (cases a; cases b) simp_all

lemma isDouble_js_orZero [simp]: "isDouble v \<Longrightarrow> isDouble (js_orZero v)"
  by (cases v) (simp_all add: js_orZero_def)

lemma js_less_sub_zero:
  assumes "isDouble a" "isDouble b"
  shows "js_less (js_sub a b) (Fin 0) = js_less a b"
proof (cases a; cases b)
  fix x y assume ab: "a = Fin x" "b = Fin y"
  show ?thesis
  proof (cases "x < y")
    case True
    then have "x - y < 0" by simp
    moreover have "onGrid (x - y)"
      using assms ab by (simp add: onGrid_diff)
    ultimately have "numberValue (x - y) = NInf \<or> (\<exists>r. r < 0 \<and> numberValue (x - y) = Fin r)"
      by (rule numberValue_neg)
    then show ?thesis
      using True by (auto simp add: ab js_sub_def)
  next
    case False
    then have "0 \<le> x - y" by simp
    then have "numberValue (x - y) = PInf \<or> (\<exists>r. 0 \<le> r \<and> numberValue (x - y) = Fin r)"
      by (rule numberValue_nonneg)
    then show ?thesis
      using False by (auto simp add: ab js_sub_def)
  qed
qed (simp_all add: js_sub_def)

text \<open>The Number value of a real whose exponent is known, and the values of the examples.\<close>

lemma numberValue_eqI:
  assumes "- 1022 < m" "m \<le> 1023" "pow2 m \<le> \<bar>x\<bar>" "\<bar>x\<bar> < pow2 (m + 1)"
    and "roundHalfEven (x / pow2 (m - 52)) = n"
    and "\<bar>real_of_int n * pow2 (m - 52)\<bar> < 2 ^ 1024"
  shows "numberValue x = Fin (real_of_int n * pow2 (m - 52))"
proof -
  have b: "binade x = m"
    using assms(1-4) by (rule binade_eqI)
  have "x \<noteq> 0"
    using assms(3) pow2_pos [of m] by auto
  then show ?thesis
    using assms(5,6) by (simp add: numberValue_def ulp_def b Let_def)
qed

lemma numberValue_round_down: "numberValue (1 + 1 / 10 ^ 16) = Fin 1"
  using numberValue_eqI [of 0 "1 + 1 / 10 ^ 16" "2 ^ 52"]
  by (simp add: pow2_def roundHalfEven_def Let_def)

lemma numberValue_tenths:
  "numberValue (1 / 10) = Fin (3602879701896397 / 2 ^ 55)"
  "numberValue (2 / 10) = Fin (3602879701896397 / 2 ^ 54)"
  "numberValue (3 / 10) = Fin (5404319552844595 / 2 ^ 54)"
  "numberValue (3602879701896397 / 2 ^ 55 + 3602879701896397 / 2 ^ 54) = Fin (5404319552844596 / 2 ^ 54)"
  using numberValue_eqI [of "- 4" "1 / 10" 7205759403792794]
    numberValue_eqI [of "- 3" "2 / 10" 7205759403792794]
    numberValue_eqI [of "- 2" "3 / 10" 5404319552844595]
    numberValue_eqI [of "- 2" "3602879701896397 / 2 ^ 55 + 3602879701896397 / 2 ^ 54" 5404319552844596]
  by (simp_all add: pow2_def roundHalfEven_def Let_def)

section \<open>Properties of the batch over binary64 values\<close>

declare batchLoop64.simps [simp del]

lemma batchLoop64_fields:
  "b \<in> set (batchLoop64 now k c e tc cpl fams)
   \<Longrightarrow> totalCost64 b = tc \<and> costPerLine64 b = cpl \<and> families64 b = fams"
proof (induction now k c e tc cpl fams rule: batchLoop64.induct)
  case (1 now k c e tc cpl fams)
  show ?case
  proof (cases "getTime c \<le> getTime e")
    case True
    with "1.prems" have "b = \<lparr> bill_id64 = now k + getTime c, billMonth64 = formatBillMonth (Some c),
             totalCost64 = tc, costPerLine64 = cpl, families64 = fams \<rparr>
           \<or> b \<in> set (batchLoop64 now (Suc k) (setMonthNext c) e tc cpl fams)"
      by (subst (asm) batchLoop64.simps) simp
    then show ?thesis using "1.IH" [OF True] by auto
  next
    case False
    with "1.prems" show ?thesis by (subst (asm) batchLoop64.simps) simp
  qed
qed

lemma isDouble_parseFloat64 [simp]: "isDouble (parseFloat64 s)"
  by (simp add: parseFloat64_def split: prod.splits option.splits)

lemma isDouble_batchExtraCost64 [simp]: "isDouble (batchExtraCost64 st f)"
  by (simp add: batchExtraCost64_def split: option.splits)

lemma isDouble_parsedTotalCost64 [simp]: "isDouble (parsedTotalCost64 st)"
  by (simp add: parsedTotalCost64_def)

lemma isDouble_foldl_js_add:
  "isDouble a \<Longrightarrow> isDouble (foldl (\<lambda>acc f. js_add acc (g f)) a xs)"
  by (induction xs arbitrary: a) simp_all

lemma isDouble_batchTotalExtra64 [simp]: "isDouble (batchTotalExtra64 st)"
  by (simp add: batchTotalExtra64_def isDouble_foldl_js_add)

lemma insufficient_iff:
  "js_less (batchTotalLineCost64 st) (Fin 0) = js_less (parsedTotalCost64 st) (batchTotalExtra64 st)"
  by (simp add: batchTotalLineCost64_def js_less_sub_zero)


lemma handleBatchCreate64_success:
  assumes "fst (handleBatchCreate64 now st store) = Inr newBills"
  shows "\<exists>s e. startDate st = Some s \<and> endDate st = Some e
           \<and> newBills = batchLoop64 now 0 s e (parsedTotalCost64 st) (batchCostPerLine64 st)
                 (map (familyForBill64 st) (selectedFamilies st))"
  using assms
  by (auto simp add: handleBatchCreate64_def Let_def split: option.splits if_splits)

text \<open>Numbers and literals of the examples.\<close>

lemma numberValue_numeral:
  "(numeral n :: int) < 2 ^ 53 \<Longrightarrow> numberValue (numeral n) = Fin (numeral n)"
  using numberValue_int [of "numeral n"] by simp

lemma numberValue_0_1 [simp]: "numberValue 0 = Fin 0" "numberValue 1 = Fin 1"
  using numberValue_int [of 0] numberValue_int [of 1] by simp_all

lemma numberValue_neg_numeral:
  "(numeral n :: int) < 2 ^ 53 \<Longrightarrow> numberValue (- numeral n) = Fin (- numeral n)"
  using numberValue_int [of "- numeral n"] by simp

lemma ascii_Cons_nonempty: "ascii (c # cs) \<noteq> []"
  by (simp add: ascii_def)

lemma numberValue_round_down':
  "numberValue (10000000000000001 / 10000000000000000) = Fin 1"
  using numberValue_round_down by simp

lemma parse64_examples:
  "parseFloat64 (ascii ''100'') = Fin 100"
  "parseFloat64 (ascii ''20'') = Fin 20"
  "parseFloat64 (ascii ''150'') = Fin 150"
  "parseFloat64 (ascii ''0'') = Fin 0"
  "parseFloat64 (ascii ''1'') = Fin 1"
  "parseFloat64 (ascii ''abc'') = NaN"
  "parseFloat64 [] = NaN"
  "parseFloat64 (ascii ''Infinity'') = PInf"
  "parseFloat64 (ascii ''-Infinity'') = NInf"
  "parseFloat64 (ascii ''1.0000000000000001'') = Fin 1"
  by (simp_all add: parseFloat64_def js_eval numberValue_numeral numberValue_round_down')

subsection \<open>Example runs over binary64 values\<close>


lemma ex_batch64_parts:
  "parsedTotalCost64 (ex_batch ms tot extra s e) = js_orZero (parseFloat64 tot)"
  "batchTotalExtra64 (ex_batch ms tot extra s e) = js_add (Fin 0) (js_orZero (parseFloat64 extra))"
  "batchTotalLines64 (ex_batch ms tot extra s e) = int (length ms)"
  "familyForBill64 (ex_batch ms tot extra s e) \<lparr> sf_id = 1, sf_name = ascii ''A'', members = ms \<rparr>
   = ex_familyInBill64 (int (length ms)) (js_orZero (parseFloat64 extra))"
  by (simp_all add: selectedFamilies_def batchExtraCost64_def batchTotalExtra64_def batchTotalLines64_def
      parsedTotalCost64_def familyForBill64_def ex_batch_def ex_familyInBill64_def)

lemma ex_batch64_fields:
  "selectedFamilyIds (ex_batch ms tot extra s e) = {1}"
  "bc_totalCost (ex_batch ms tot extra s e) = tot"
  "startDate (ex_batch ms tot extra s e) = s"
  "endDate (ex_batch ms tot extra s e) = e"
  by (simp_all add: ex_batch_def)

lemmas batch64_eval =
  handleBatchCreate64_def ex_batch64_fields ex_batch64_parts ex_batch_parts(1) batchTotalLineCost64_def
  batchCostPerLine64_def js_sub_def js_orZero_def parse64_examples ascii_Cons_nonempty getTime_2024
  numberValue_numeral numberValue_neg_numeral two_members_def existingBills64_def ex_bill64_def
  batchLoop64.simps setMonthNext_2024 formatBillMonth_2024 clockFrom_def Let_def

lemma batch64_usual:
  "handleBatchCreate64 (clockFrom 1700000000000)
     (ex_batch two_members (ascii ''100'') (ascii ''20'') (Some d2024_01_01) (Some d2024_01_01)) None
   = (Inr [ex_bill64 3404067200000 (token ''2024'' ''01'') (Fin 100) (Fin 40) 2 (Fin 20)],
      Some [ex_bill64 3404067200000 (token ''2024'' ''01'') (Fin 100) (Fin 40) 2 (Fin 20)])"
  by (simp add: batch64_eval)

lemma batch64_unparseable_total:
  "handleBatchCreate64 (clockFrom 1700000000000)
     (ex_batch two_members (ascii ''abc'') [] (Some d2024_01_01) (Some d2024_01_01)) None
   = (Inr [ex_bill64 3404067200000 (token ''2024'' ''01'') (Fin 0) (Fin 0) 2 (Fin 0)],
      Some [ex_bill64 3404067200000 (token ''2024'' ''01'') (Fin 0) (Fin 0) 2 (Fin 0)])"
  by (simp add: batch64_eval)

lemma batch64_infinite_total:
  "handleBatchCreate64 (clockFrom 1700000000000)
     (ex_batch two_members (ascii ''Infinity'') (ascii ''20'') (Some d2024_01_01) (Some d2024_01_01)) None
   = (Inr [ex_bill64 3404067200000 (token ''2024'' ''01'') PInf PInf 2 (Fin 20)],
      Some [ex_bill64 3404067200000 (token ''2024'' ''01'') PInf PInf 2 (Fin 20)])"
  by (simp add: batch64_eval)

lemma batch64_infinite_extra:
  "handleBatchCreate64 now
     (ex_batch two_members (ascii ''100'') (ascii ''Infinity'') (Some d2024_01_01) (Some d2024_01_01)) store
   = (Inl Insufficient, store)"
  by (simp add: batch64_eval)

lemma batch64_insufficient:
  "handleBatchCreate64 now
     (ex_batch two_members (ascii ''100'') (ascii ''150'') (Some d2024_01_01) (Some d2024_01_01)) store
   = (Inl Insufficient, store)"
  by (simp add: batch64_eval)



text \<open>
  A total of \<open>0.3\<close> with extra costs of \<open>0.1\<close> and \<open>0.2\<close>.  The sum of the two parsed
  values lies halfway between two binary64 values and rounds to the upper one, which is
  greater than the parsed total: the batch ends with the alert for insufficient funds.
\<close>

lemma numberValue_tenths_normal:
  "numberValue (1 / 10) = Fin (3602879701896397 / 36028797018963968)"
  "numberValue (1 / 5) = Fin (3602879701896397 / 18014398509481984)"
  "numberValue (3 / 10) = Fin (5404319552844595 / 18014398509481984)"
  "numberValue (10808639105689191 / 36028797018963968) = Fin (1351079888211149 / 4503599627370496)"
  using numberValue_tenths by simp_all

lemma numberValue_tenth_exact:
  "numberValue (3602879701896397 / 36028797018963968) = Fin (3602879701896397 / 36028797018963968)"
  using numberValue_exact [of "3602879701896397 / 36028797018963968" 3602879701896397 "- 55"]
  by (simp add: pow2_def)

lemma parse64_tenths:
  "parseFloat64 (ascii ''0.1'') = Fin (3602879701896397 / 36028797018963968)"
  "parseFloat64 (ascii ''0.2'') = Fin (3602879701896397 / 18014398509481984)"
  "parseFloat64 (ascii ''0.3'') = Fin (5404319552844595 / 18014398509481984)"
  by (simp_all add: parseFloat64_def js_eval numberValue_tenths_normal)

lemma parseFloat_tenths:
  "parseFloat (ascii ''0.1'') = Some (1 / 10)"
  "parseFloat (ascii ''0.2'') = Some (2 / 10)"
  "parseFloat (ascii ''0.3'') = Some (3 / 10)"
  by (simp_all add: js_eval)

lemma batch64_tenths:
  "handleBatchCreate64 now (ex_batchTwo (ascii ''0.3'') (ascii ''0.1'') (ascii ''0.2'')) store
   = (Inl Insufficient, store)"
proof -
  let ?st = "ex_batchTwo (ascii ''0.3'') (ascii ''0.1'') (ascii ''0.2'')"
  have tot: "parsedTotalCost64 ?st = Fin (5404319552844595 / 18014398509481984)"
    by (simp add: parsedTotalCost64_def ex_batchTwo_def parse64_tenths js_orZero_def)
  have ext: "batchTotalExtra64 ?st = Fin (1351079888211149 / 4503599627370496)"
    by (simp add: batchTotalExtra64_def batchExtraCost64_def selectedFamilies_def ex_batchTwo_def
        parse64_tenths js_orZero_def numberValue_tenths_normal numberValue_tenth_exact)
  have "js_less (batchTotalLineCost64 ?st) (Fin 0)"
    by (simp add: insufficient_iff tot ext)
  then show ?thesis
    by (simp add: handleBatchCreate64_def ex_batchTwo_def getTime_2024 ascii_Cons_nonempty)
qed




text \<open>
  C7 (as stated, refuted).  A total that is not a number is not rejected: \<open>abc\<close> is not
  empty, so it passes the check for missing fields, and it is then read as 0.  One bill is
  generated and stored.
\<close>

theorem batch_total_cost_field_counterexample:
  "parseFloat64 (ascii ''abc'') = NaN
   \<and> handleBatchCreate64 (clockFrom 1700000000000)
        (ex_batch two_members (ascii ''abc'') [] (Some d2024_01_01) (Some d2024_01_01)) None
       = (Inr [ex_bill64 3404067200000 (token ''2024'' ''01'') (Fin 0) (Fin 0) 2 (Fin 0)],
          Some [ex_bill64 3404067200000 (token ''2024'' ''01'') (Fin 0) (Fin 0) 2 (Fin 0)])"
  by (simp add: batch64_unparseable_total parse64_examples)

text \<open>
  C7 (amended).  An empty total ends the batch with the alert for missing fields and no
  bill.  A total that is not empty and parses to NaN is read as 0: the batch does exactly
  what it does for the total \<open>0\<close>.  Whether the field parses is checked nowhere: the bills
  of a batch carry \<open>parseFloat(totalCost) || 0\<close> as their total, an infinite one included.
\<close>

theorem batch_total_cost_field:
  "(bc_totalCost st = [] \<longrightarrow> handleBatchCreate64 now st store = (Inl Incomplete, store))
   \<and> (bc_totalCost st \<noteq> [] \<and> parseFloat64 (bc_totalCost st) = NaN
        \<longrightarrow> handleBatchCreate64 now st store
            = handleBatchCreate64 now (st\<lparr> bc_totalCost := ascii ''0'' \<rparr>) store)
   \<and> (\<forall>newBills. fst (handleBatchCreate64 now st store) = Inr newBills
          \<longrightarrow> (\<forall>b \<in> set newBills. totalCost64 b = js_orZero (parseFloat64 (bc_totalCost st))))"
proof (intro conjI impI allI ballI)
  assume "bc_totalCost st = []"
  then show "handleBatchCreate64 now st store = (Inl Incomplete, store)"
    by (simp add: handleBatchCreate64_def)
next
  assume a: "bc_totalCost st \<noteq> [] \<and> parseFloat64 (bc_totalCost st) = NaN"
  let ?st = "st\<lparr> bc_totalCost := ascii ''0'' \<rparr>"
  have fam: "familyForBill64 ?st = familyForBill64 st"
    by (rule ext) (simp add: familyForBill64_def batchExtraCost64_def)
  have sel: "selectedFamilies ?st = selectedFamilies st"
    by (simp add: selectedFamilies_def)
  have same: "batchTotalExtra64 ?st = batchTotalExtra64 st"
    "batchTotalLines64 ?st = batchTotalLines64 st"
    by (simp_all add: batchTotalExtra64_def batchTotalLines64_def batchExtraCost64_def fam sel)
  have tot: "parsedTotalCost64 ?st = parsedTotalCost64 st"
    using a by (simp add: parsedTotalCost64_def parse64_examples js_orZero_def)
  have cost: "batchTotalLineCost64 ?st = batchTotalLineCost64 st"
    by (simp add: batchTotalLineCost64_def same tot)
  have cpl: "batchCostPerLine64 ?st = batchCostPerLine64 st"
    by (simp add: batchCostPerLine64_def same cost)
  have empty: "(bc_totalCost ?st = []) = (bc_totalCost st = [])"
    using a by (simp add: ascii_Cons_nonempty)
  have rest: "startDate ?st = startDate st" "endDate ?st = endDate st"
    "selectedFamilyIds ?st = selectedFamilyIds st"
    by simp_all
  show "handleBatchCreate64 now st store = handleBatchCreate64 now ?st store"
    unfolding handleBatchCreate64_def same sel fam cost cpl tot empty rest ..
next
  fix newBills b
  assume "fst (handleBatchCreate64 now st store) = Inr newBills" and b: "b \<in> set newBills"
  then obtain s e where
    "newBills = batchLoop64 now 0 s e (parsedTotalCost64 st) (batchCostPerLine64 st)
                  (map (familyForBill64 st) (selectedFamilies st))"
    using handleBatchCreate64_success by blast
  with b have "totalCost64 b = parsedTotalCost64 st"
    using batchLoop64_fields by blast
  then show "totalCost64 b = js_orZero (parseFloat64 (bc_totalCost st))"
    by (simp add: parsedTotalCost64_def)
qed

theorem batch_total_cost_field_witness:
  "handleBatchCreate64 (clockFrom 1700000000000)
     (ex_batch two_members [] [] (Some d2024_01_01) (Some d2024_01_01)) None
   = (Inl Incomplete, None)
   \<and> ascii ''abc'' \<noteq> [] \<and> parseFloat64 (ascii ''abc'') = NaN
   \<and> handleBatchCreate64 (clockFrom 1700000000000)
        (ex_batch two_members (ascii ''abc'') [] (Some d2024_01_01) (Some d2024_01_01)) None
     = handleBatchCreate64 (clockFrom 1700000000000)
        (ex_batch two_members (ascii ''0'') [] (Some d2024_01_01) (Some d2024_01_01)) None
   \<and> fst (handleBatchCreate64 (clockFrom 1700000000000)
        (ex_batch two_members (ascii ''Infinity'') (ascii ''20'') (Some d2024_01_01) (Some d2024_01_01)) None)
     = Inr [ex_bill64 3404067200000 (token ''2024'' ''01'') PInf PInf 2 (Fin 20)]
   \<and> totalCost64 (ex_bill64 3404067200000 (token ''2024'' ''01'') PInf PInf 2 (Fin 20))
     = js_orZero (parseFloat64 (ascii ''Infinity''))"
proof -
  let ?now = "clockFrom 1700000000000"
  let ?empty = "ex_batch two_members [] [] (Some d2024_01_01) (Some d2024_01_01)"
  let ?abc = "ex_batch two_members (ascii ''abc'') [] (Some d2024_01_01) (Some d2024_01_01)"
  let ?inf = "ex_batch two_members (ascii ''Infinity'') (ascii ''20'') (Some d2024_01_01) (Some d2024_01_01)"
  let ?bill = "ex_bill64 3404067200000 (token ''2024'' ''01'') PInf PInf 2 (Fin 20)"
  have one: "handleBatchCreate64 ?now ?empty None = (Inl Incomplete, None)"
    using batch_total_cost_field [of ?empty ?now None] by (simp add: ex_batch64_fields)
  have abc: "ascii ''abc'' \<noteq> []" "parseFloat64 (ascii ''abc'') = NaN"
    by (simp_all add: ascii_Cons_nonempty parse64_examples)
  have "handleBatchCreate64 ?now ?abc None
        = handleBatchCreate64 ?now (?abc\<lparr> bc_totalCost := ascii ''0'' \<rparr>) None"
    using batch_total_cost_field [of ?abc ?now None] abc by (simp add: ex_batch64_fields)
  then have two: "handleBatchCreate64 ?now ?abc None
        = handleBatchCreate64 ?now (ex_batch two_members (ascii ''0'') [] (Some d2024_01_01) (Some d2024_01_01)) None"
    by (simp add: ex_batch_def)
  have run: "fst (handleBatchCreate64 ?now ?inf None) = Inr [?bill]"
    by (simp add: batch64_infinite_total)
  have "\<forall>b \<in> set [?bill]. totalCost64 b = js_orZero (parseFloat64 (bc_totalCost ?inf))"
    using batch_total_cost_field [of ?inf ?now None] run by blast
  then have three: "totalCost64 ?bill = js_orZero (parseFloat64 (ascii ''Infinity''))"
    by (simp add: ex_batch64_fields)
  show ?thesis
    by (intro conjI one abc two run three)
qed

section \<open>Properties of the summary\<close>

subsection \<open>Number formatting\<close>

text \<open>The decimal form of an integer determines the integer.\<close>

lemma digitsValue_snoc: "digitsValue (ds @ [c]) = 10 * digitsValue ds + (c - 48)"
  by (simp add: digitsValue_def)

lemma digitsValue_natToString: "digitsValue (natToString n) = n"
proof (induction n rule: natToString.induct)
  case (1 n)
  show ?case
  proof (cases "n < 10")
    case True
    then show ?thesis by (subst natToString.simps) (simp add: digitsValue_def)
  next
    case False
    then have "digitsValue (natToString n) = 10 * digitsValue (natToString (n div 10)) + n mod 10"
      by (subst natToString.simps) (simp add: digitsValue_snoc)
    also have "\<dots> = 10 * (n div 10) + n mod 10"
      using "1.IH" [OF False] by simp
    finally show ?thesis by simp
  qed
qed

lemma natToString_digits: "natToString n \<noteq> [] \<and> (\<forall>c \<in> set (natToString n). isDigit c)"
proof (induction n rule: natToString.induct)
  case (1 n)
  show ?case
  proof (cases "n < 10")
    case True
    then show ?thesis by (subst (1 2) natToString.simps) (simp add: isDigit_def)
  next
    case False
    have "n mod 10 < 10" by simp
    then have "isDigit (48 + n mod 10)" unfolding isDigit_def by linarith
    then show ?thesis
      using False "1.IH" [OF False] by (subst (1 2) natToString.simps) simp
  qed
qed

lemma natToString_inj: "natToString a = natToString b \<Longrightarrow> a = b"
  by (metis digitsValue_natToString)

lemma numberToString_inj: "numberToString i = numberToString j \<Longrightarrow> i = j"
proof -
  assume eq: "numberToString i = numberToString j"
  have no_minus: "natToString n \<noteq> 45 # s" for n s
  proof
    assume "natToString n = 45 # s"
    then have "isDigit 45" using natToString_digits [of n] by simp
    then show False by (simp add: isDigit_def)
  qed
  show "i = j"
  proof (cases "i < 0")
    case True
    show ?thesis
    proof (cases "j < 0")
      case True
      with \<open>i < 0\<close> eq have "nat (- i) = nat (- j)"
        by (simp add: numberToString_def natToString_inj)
      with True \<open>i < 0\<close> show ?thesis by simp
    next
      case False
      with True eq no_minus [of "nat j" "natToString (nat (- i))"] show ?thesis
        by (simp add: numberToString_def)
    qed
  next
    case False
    show ?thesis
    proof (cases "j < 0")
      case True
      with False eq no_minus [of "nat i" "natToString (nat (- j))"] show ?thesis
        by (simp add: numberToString_def)
    next
      case j: False
      with False eq have "nat i = nat j"
        by (simp add: numberToString_def natToString_inj)
      with False j show ?thesis by simp
    qed
  qed
qed

lemma familyKey_nonempty: "familyKey f \<noteq> []"
  by (simp add: familyKey_def)

lemma familyKey_unnamed_inj:
  "fam_name f = [] \<Longrightarrow> fam_name g = [] \<Longrightarrow> familyKey f = familyKey g \<Longrightarrow> fam_id f = fam_id g"
  by (simp add: familyKey_def numberToString_inj)

subsection \<open>What the summary holds\<close>

lemma forEachPair_append:
  "forEachPair (ps @ qs) s = (case forEachPair ps s of Inl e \<Rightarrow> Inl e | Inr s' \<Rightarrow> forEachPair qs s')"
  by (induction ps arbitrary: s) (simp_all split: sum.splits)

lemma forEachFamily_pairs: "forEachFamily bill fs s = forEachPair (map (Pair bill) fs) s"
  by (induction fs arbitrary: s) (simp_all split: sum.splits)

lemma forEachBill_pairs: "forEachBill bills s = forEachPair (participations bills) s"
  by (induction bills arbitrary: s)
     (simp_all add: participations_def forEachPair_append forEachFamily_pairs split: sum.splits)

lemma addFamily_Inr:
  assumes "addFamily bill s f = Inr s'"
  shows "s' = AList.update (familyKey f) (accumulate (map_of s (familyKey f)) (contribution (bill, f))) s"
  using assms
  by (auto simp add: addFamily_def getProp_def accumulate_def contribution_def familyTotalCost_def
      Let_def split: option.splits if_splits)

lemma addFamily_Inl:
  "addFamily bill s f = Inl e \<longleftrightarrow>
     e = TypeError \<and> map_of s (familyKey f) = None \<and> familyKey f \<in> set objectPrototypeProps"
  by (auto simp add: addFamily_def getProp_def Let_def split: option.splits if_splits)

lemma accAll_simps:
  "accAll a [] = a"
  "accAll a (c # cs) = accAll (Some (accumulate a c)) cs"
  by (simp_all add: accAll_def)

lemma forEachPair_lookup:
  "forEachPair ps s = Inr s' \<Longrightarrow> map_of s' k = accAll (map_of s k) (contributionsTo k ps)"
proof (induction ps arbitrary: s)
  case Nil
  then show ?case by (simp add: contributionsTo_def accAll_simps)
next
  case (Cons p ps)
  from Cons.prems obtain s1 where
    step: "addFamily (fst p) s (snd p) = Inr s1" and rest: "forEachPair ps s1 = Inr s'"
    by (auto split: sum.splits)
  have s1: "map_of s1 = (map_of s)(familyKey (snd p) \<mapsto>
              accumulate (map_of s (familyKey (snd p))) (contribution p))"
    using addFamily_Inr [OF step] by (simp add: update_conv')
  show ?case
  proof (cases "familyKey (snd p) = k")
    case True
    then have "contributionsTo k (p # ps) = contribution p # contributionsTo k ps"
      by (simp add: contributionsTo_def)
    then show ?thesis
      using Cons.IH [OF rest] s1 True by (simp add: accAll_simps)
  next
    case False
    then have "contributionsTo k (p # ps) = contributionsTo k ps"
      by (simp add: contributionsTo_def)
    then show ?thesis
      using Cons.IH [OF rest] s1 False by simp
  qed
qed

lemma forEachPair_distinct:
  "forEachPair ps s = Inr s' \<Longrightarrow> distinct (map fst s) \<Longrightarrow> distinct (map fst s')"
proof (induction ps arbitrary: s)
  case Nil
  then show ?case by simp
next
  case (Cons p ps)
  from Cons.prems(1) obtain s1 where
    step: "addFamily (fst p) s (snd p) = Inr s1" and rest: "forEachPair ps s1 = Inr s'"
    by (auto split: sum.splits)
  have "distinct (map fst s1)"
    using addFamily_Inr [OF step] Cons.prems(2) by (simp add: distinct_update)
  then show ?case using Cons.IH [OF rest] by simp
qed

lemma accAll_Some:
  "accAll (Some acc) cs
   = Some (acc\<lparr> acc_totalCost := acc_totalCost acc + sum_list (map snd cs),
                 acc_monthlyBreakdown := acc_monthlyBreakdown acc @ cs \<rparr>)"
  by (induction cs arbitrary: acc) (simp_all add: accAll_simps accumulate_def add.assoc)

lemma accAll_None:
  "accAll None cs
   = (if cs = [] then None
      else Some \<lparr> acc_extraServiceCost = 0, acc_lines = 0, acc_monthlyBill = 0,
                  acc_totalCost = sum_list (map snd cs), acc_monthlyBreakdown = cs \<rparr>)"
  by (cases cs) (simp_all add: accAll_simps accAll_Some accumulate_def)

lemma set_ownEntries: "set (ownEntries obj) = set obj"
  by (auto simp add: ownEntries_def)

lemma distinct_map_sort_key:
  "distinct (map f (sort_key g xs)) = distinct (map f xs)"
proof -
  have "mset (map f (sort_key g xs)) = mset (map f xs)" by simp
  then show ?thesis by (rule mset_eq_imp_distinct_iff)
qed

lemma distinct_ownEntries:
  assumes "distinct (map fst obj)"
  shows "distinct (map fst (ownEntries obj))"
proof -
  have "distinct (map fst (filter (\<lambda>p. isArrayIndex (fst p)) obj))"
    and "distinct (map fst (filter (\<lambda>p. \<not> isArrayIndex (fst p)) obj))"
    using assms by (simp_all add: distinct_map_filter)
  then show ?thesis
    by (auto simp add: ownEntries_def distinct_map_sort_key)
qed

lemma handleCalculateSummary_Inr:
  assumes "handleCalculateSummary st = Inr summary"
  obtains s where "forEachPair (participations (filteredBills st)) [] = Inr s"
    and "summary = map toSummaryResult (ownEntries s)"
    and "distinct (map fst s)"
proof -
  from assms obtain s where s: "forEachBill (filteredBills st) [] = Inr s"
    and sm: "summary = map toSummaryResult (ownEntries s)"
    by (auto simp add: handleCalculateSummary_def split: if_splits sum.splits)
  have p: "forEachPair (participations (filteredBills st)) [] = Inr s"
    using s by (simp add: forEachBill_pairs)
  have "distinct (map fst s)"
    using forEachPair_distinct [OF p] by simp
  with p sm show ?thesis by (rule that)
qed

lemma sr_name_toSummaryResult: "sr_name \<circ> toSummaryResult = fst"
  by (rule ext) (simp add: toSummaryResult_def)

text \<open>The entries of a summary, by the participations of the bills in range.\<close>

lemma summary_entries:
  assumes "handleCalculateSummary st = Inr summary"
  shows "distinct (map sr_name summary)"
    and "\<And>e. e \<in> set summary \<Longrightarrow>
           contributionsTo (sr_name e) (participations (filteredBills st)) \<noteq> []
           \<and> sr_monthlyBreakdown e = contributionsTo (sr_name e) (participations (filteredBills st))
           \<and> sr_totalCost e = sum_list (map snd (sr_monthlyBreakdown e))"
    and "\<And>p. p \<in> set (participations (filteredBills st)) \<Longrightarrow>
           \<exists>e \<in> set summary. sr_name e = familyKey (snd p)"
proof -
  let ?ps = "participations (filteredBills st)"
  from assms obtain s where run: "forEachPair ?ps [] = Inr s"
    and sm: "summary = map toSummaryResult (ownEntries s)"
    and dist: "distinct (map fst s)"
    by (rule handleCalculateSummary_Inr)
  have look: "map_of s k = accAll None (contributionsTo k ?ps)" for k
    using forEachPair_lookup [OF run, of k] by simp
  show "distinct (map sr_name summary)"
    using distinct_ownEntries [OF dist] by (simp add: sm sr_name_toSummaryResult)
  show "contributionsTo (sr_name e) ?ps \<noteq> []
        \<and> sr_monthlyBreakdown e = contributionsTo (sr_name e) ?ps
        \<and> sr_totalCost e = sum_list (map snd (sr_monthlyBreakdown e))"
    if "e \<in> set summary" for e
  proof -
    from that obtain k acc where e: "e = toSummaryResult (k, acc)" and mem: "(k, acc) \<in> set s"
      by (auto simp add: sm set_ownEntries)
    have "map_of s k = Some acc"
      using dist mem by simp
    then have "accAll None (contributionsTo k ?ps) = Some acc"
      by (simp add: look)
    then show ?thesis
      by (auto simp add: accAll_None e toSummaryResult_def split: if_splits)
  qed
  show "\<exists>e \<in> set summary. sr_name e = familyKey (snd p)" if "p \<in> set ?ps" for p
  proof -
    have "contributionsTo (familyKey (snd p)) ?ps \<noteq> []"
      using that by (auto simp add: contributionsTo_def filter_empty_conv)
    then obtain acc where "map_of s (familyKey (snd p)) = Some acc"
      by (simp add: look accAll_None)
    then have "(familyKey (snd p), acc) \<in> set s"
      by (rule map_of_SomeD)
    then have "toSummaryResult (familyKey (snd p), acc) \<in> set summary"
      by (simp add: sm set_ownEntries)
    then show ?thesis
      by (rule rev_bexI) (simp add: toSummaryResult_def)
  qed
qed

lemma participations_iff:
  "(bill, f) \<in> set (participations bills) \<longleftrightarrow> bill \<in> set bills \<and> f \<in> set (families bill)"
  by (auto simp add: participations_def)

text \<open>
  A summary is produced when the two months are chosen, a bill lies in the range and no key
  is a property that \<open>summary\<close> inherits; a key that is one ends the aggregation with a
  \<open>TypeError\<close> (see \<open>summary_inherited_name\<close> below).
\<close>

lemma forEachPair_succeeds:
  "\<forall>p \<in> set ps. familyKey (snd p) \<notin> set objectPrototypeProps \<Longrightarrow> \<exists>s'. forEachPair ps s = Inr s'"
proof (induction ps arbitrary: s)
  case Nil
  then show ?case by simp
next
  case (Cons p ps)
  have "\<exists>s1. addFamily (fst p) s (snd p) = Inr s1"
  proof (cases "addFamily (fst p) s (snd p)")
    case (Inl e)
    then show ?thesis using Cons.prems by (simp add: addFamily_Inl)
  next
    case (Inr s1)
    then show ?thesis by blast
  qed
  then obtain s1 where "addFamily (fst p) s (snd p) = Inr s1" ..
  then show ?case using Cons.IH [of s1] Cons.prems by simp
qed

lemma handleCalculateSummary_succeeds:
  assumes "hs_startDate st \<noteq> None" "hs_endDate st \<noteq> None" "filteredBills st \<noteq> []"
    and "\<forall>p \<in> set (participations (filteredBills st)). familyKey (snd p) \<notin> set objectPrototypeProps"
  shows "\<exists>summary. handleCalculateSummary st = Inr summary"
proof -
  have "allBills st \<noteq> []"
    using assms(3) by (auto simp add: filteredBills_def)
  moreover obtain s where "forEachBill (filteredBills st) [] = Inr s"
    using forEachPair_succeeds [OF assms(4), of "[]"] by (auto simp add: forEachBill_pairs)
  ultimately show ?thesis
    using assms(1-3) by (simp add: handleCalculateSummary_def)
qed

text \<open>
  Conversely a key that is an inherited property ends the aggregation: no entry is ever made
  under such a key, so the first participation that has one finds the inherited value.
  With the check of the two months this tells when the aggregation throws.
\<close>

lemma addFamily_keys:
  assumes "addFamily bill s f = Inr s'"
  shows "fst ` set s' = insert (familyKey f) (fst ` set s)"
  using addFamily_Inr [OF assms] by (simp add: dom_update)

lemma forEachPair_fails:
  assumes "\<exists>p \<in> set ps. familyKey (snd p) \<in> set objectPrototypeProps"
    and "fst ` set s \<inter> set objectPrototypeProps = {}"
  shows "forEachPair ps s = Inl TypeError"
  using assms
proof (induction ps arbitrary: s)
  case Nil
  then show ?case by simp
next
  case (Cons p ps)
  show ?case
  proof (cases "familyKey (snd p) \<in> set objectPrototypeProps")
    case True
    with Cons.prems(2) have "familyKey (snd p) \<notin> fst ` set s"
      by blast
    then have "map_of s (familyKey (snd p)) = None"
      by (simp add: map_of_eq_None_iff)
    with True have "addFamily (fst p) s (snd p) = Inl TypeError"
      by (simp add: addFamily_Inl)
    then show ?thesis by simp
  next
    case False
    then have "\<forall>e. addFamily (fst p) s (snd p) \<noteq> Inl e"
      by (simp add: addFamily_Inl)
    then obtain s1 where step: "addFamily (fst p) s (snd p) = Inr s1"
      by (cases "addFamily (fst p) s (snd p)") auto
    have "fst ` set s1 \<inter> set objectPrototypeProps = {}"
      using addFamily_keys [OF step] Cons.prems(2) False by auto
    moreover have "\<exists>q \<in> set ps. familyKey (snd q) \<in> set objectPrototypeProps"
      using Cons.prems(1) False by auto
    ultimately have "forEachPair ps s1 = Inl TypeError"
      by (rule Cons.IH [rotated])
    with step show ?thesis by simp
  qed
qed

lemma filteredBills_range:
  "bill \<in> set (filteredBills st) \<longleftrightarrow>
     bill \<in> set (allBills st)
     \<and> str_le (formatBillMonth (hs_startDate st)) (billMonth bill)
     \<and> str_le (billMonth bill) (formatBillMonth (hs_endDate st))"
  by (auto simp add: filteredBills_def str_le_def)

lemma handleCalculateSummary_TypeError_iff:
  "handleCalculateSummary st = Inl TypeError \<longleftrightarrow>
     hs_startDate st \<noteq> None \<and> hs_endDate st \<noteq> None
     \<and> (\<exists>bill \<in> set (allBills st).
           str_le (formatBillMonth (hs_startDate st)) (billMonth bill)
           \<and> str_le (billMonth bill) (formatBillMonth (hs_endDate st))
           \<and> (\<exists>family \<in> set (families bill). familyKey family \<in> set objectPrototypeProps))"
  (is "?l \<longleftrightarrow> ?r")
proof
  assume l: ?l
  then have dates: "hs_startDate st \<noteq> None" "hs_endDate st \<noteq> None" and ne: "filteredBills st \<noteq> []"
    by (auto simp add: handleCalculateSummary_def split: if_splits)
  have "\<not> (\<forall>p \<in> set (participations (filteredBills st)). familyKey (snd p) \<notin> set objectPrototypeProps)"
  proof
    assume "\<forall>p \<in> set (participations (filteredBills st)). familyKey (snd p) \<notin> set objectPrototypeProps"
    then have "\<exists>summary. handleCalculateSummary st = Inr summary"
      using dates ne by (intro handleCalculateSummary_succeeds) auto
    with l show False by simp
  qed
  then obtain bill family where "(bill, family) \<in> set (participations (filteredBills st))"
    and "familyKey family \<in> set objectPrototypeProps"
    by auto
  then show ?r
    using dates by (auto simp add: participations_iff filteredBills_range)
next
  assume r: ?r
  then obtain bill family where b: "bill \<in> set (filteredBills st)"
    and f: "family \<in> set (families bill)" and k: "familyKey family \<in> set objectPrototypeProps"
    by (auto simp add: filteredBills_range)
  have "(bill, family) \<in> set (participations (filteredBills st))"
    using b f by (simp add: participations_iff)
  with k have "\<exists>p \<in> set (participations (filteredBills st)). familyKey (snd p) \<in> set objectPrototypeProps"
    by force
  then have "forEachPair (participations (filteredBills st)) [] = Inl TypeError"
    by (rule forEachPair_fails) simp
  then have "forEachBill (filteredBills st) [] = Inl TypeError"
    by (simp add: forEachBill_pairs)
  moreover have "filteredBills st \<noteq> []"
    using b by auto
  moreover have "allBills st \<noteq> []"
    using b by (auto simp add: filteredBills_range)
  ultimately show ?l
    using r by (simp add: handleCalculateSummary_def)
qed

text \<open>
  What a summary holds, with the range written out: a bill of the history is in the range
  when its month token is not below the token of the start month and not above the token
  of the end month.  Each bill of the range adds, for each of its families, its month with
  \<open>lines * costPerLine + extraService.cost\<close> to the entry of the family's key; an entry
  holds exactly these additions, in the order of the bills, and their sum.  The flag
  \<open>hasService\<close> is not read.
\<close>

lemma summary_contributions:
  assumes "handleCalculateSummary st = Inr summary"
  shows "\<forall>bill \<in> set (allBills st).
           str_le (formatBillMonth (hs_startDate st)) (billMonth bill)
           \<and> str_le (billMonth bill) (formatBillMonth (hs_endDate st))
           \<longrightarrow> (\<forall>family \<in> set (families bill).
                  \<exists>e \<in> set summary.
                    sr_name e = familyKey family
                    \<and> (billMonth bill,
                        real_of_int (lines family) * costPerLine bill + cost (extraService family))
                      \<in> set (sr_monthlyBreakdown e))"
    and "\<forall>e \<in> set summary.
           sr_monthlyBreakdown e
             = contributionsTo (sr_name e)
                 (participations
                    (filter (\<lambda>bill. str_le (formatBillMonth (hs_startDate st)) (billMonth bill)
                                    \<and> str_le (billMonth bill) (formatBillMonth (hs_endDate st)))
                       (allBills st)))
           \<and> sr_totalCost e = sum_list (map snd (sr_monthlyBreakdown e))"
proof -
  have range: "filter (\<lambda>bill. str_le (formatBillMonth (hs_startDate st)) (billMonth bill)
                                    \<and> str_le (billMonth bill) (formatBillMonth (hs_endDate st)))
                       (allBills st) = filteredBills st"
    by (simp add: filteredBills_def str_le_def)
  show "\<forall>e \<in> set summary.
           sr_monthlyBreakdown e
             = contributionsTo (sr_name e)
                 (participations
                    (filter (\<lambda>bill. str_le (formatBillMonth (hs_startDate st)) (billMonth bill)
                                    \<and> str_le (billMonth bill) (formatBillMonth (hs_endDate st)))
                       (allBills st)))
           \<and> sr_totalCost e = sum_list (map snd (sr_monthlyBreakdown e))"
    unfolding range using summary_entries(2) [OF assms] by blast
  show "\<forall>bill \<in> set (allBills st).
           str_le (formatBillMonth (hs_startDate st)) (billMonth bill)
           \<and> str_le (billMonth bill) (formatBillMonth (hs_endDate st))
           \<longrightarrow> (\<forall>family \<in> set (families bill).
                  \<exists>e \<in> set summary.
                    sr_name e = familyKey family
                    \<and> (billMonth bill,
                        real_of_int (lines family) * costPerLine bill + cost (extraService family))
                      \<in> set (sr_monthlyBreakdown e))"
  proof (intro ballI impI)
    fix bill family
    assume "bill \<in> set (allBills st)"
      and "str_le (formatBillMonth (hs_startDate st)) (billMonth bill)
           \<and> str_le (billMonth bill) (formatBillMonth (hs_endDate st))"
      and f: "family \<in> set (families bill)"
    then have b: "bill \<in> set (filteredBills st)"
      by (simp add: filteredBills_range)
    let ?ps = "participations (filteredBills st)"
    have p: "(bill, family) \<in> set ?ps"
      using b f by (simp add: participations_iff)
    from summary_entries(3) [OF assms p] obtain e where
      e: "e \<in> set summary" "sr_name e = familyKey family"
      by auto
    have "sr_monthlyBreakdown e = contributionsTo (familyKey family) ?ps"
      using summary_entries(2) [OF assms e(1)] e(2) by simp
    moreover have "contribution (bill, family) \<in> set (contributionsTo (familyKey family) ?ps)"
      using p by (force simp add: contributionsTo_def)
    ultimately have "(billMonth bill,
          real_of_int (lines family) * costPerLine bill + cost (extraService family))
        \<in> set (sr_monthlyBreakdown e)"
      by (simp add: contribution_def)
    with e show "\<exists>e \<in> set summary.
                sr_name e = familyKey family
                \<and> (billMonth bill,
                    real_of_int (lines family) * costPerLine bill + cost (extraService family))
                  \<in> set (sr_monthlyBreakdown e)"
      by blast
  qed
qed

subsection \<open>Example summaries\<close>

lemma formatBillMonth_range:
  "formatBillMonth (Some d2024_01_01) = token ''2024'' ''01''"
  "formatBillMonth (Some d2024_03_31) = token ''2024'' ''03''"
  by (simp_all add: formatBillMonth_def ex_dates token_def js_eval)

lemma filteredBills_ex_home: "filteredBills (ex_home fams) = [ex_janBill fams]"
  by (simp add: filteredBills_def ex_home_def ex_janBill_def formatBillMonth_range str_le_def)
     (simp add: token_def ascii_def cp_year_def cp_month_def)

lemma handleCalculateSummary_ex_home:
  "handleCalculateSummary (ex_home fams)
   = (case forEachFamily (ex_janBill fams) fams [] of
        Inl e \<Rightarrow> Inl e
      | Inr summary \<Rightarrow> Inr (map toSummaryResult (ownEntries summary)))"
  by (simp add: handleCalculateSummary_def filteredBills_ex_home)
     (simp add: ex_home_def ex_janBill_def split: sum.splits)

lemmas summary_eval =
  addFamily_def getProp_def familyKey_def familyTotalCost_def objectPrototypeProps_def
  ownEntries_def isArrayIndex_def toSummaryResult_def ex_part_def ex_janBill_def ex_entry_def
  unnamedKey_def token_def ascii_def cp_year_def cp_month_def cp_family1_def cp_family2_def
  isDigit_def digitsValue_def numberToString_def natToString.simps Let_def

lemma summary_disabled_extra:
  "handleCalculateSummary
     (ex_home [ex_part 1 (ascii ''A'') 2 False (- 5), ex_part 2 (ascii ''B'') 1 True 3])
   = Inr [ex_entry (ascii ''A'') 15 [(token ''2024'' ''01'', 15)],
          ex_entry (ascii ''B'') 13 [(token ''2024'' ''01'', 13)]]"
  by (simp add: handleCalculateSummary_ex_home) (simp add: summary_eval)

lemma summary_same_name:
  "handleCalculateSummary
     (ex_home [ex_part 1 (ascii ''A'') 2 False 0, ex_part 2 (ascii ''B'') 1 True 3,
               ex_part 3 (ascii ''A'') 1 True 4])
   = Inr [ex_entry (ascii ''A'') 34 [(token ''2024'' ''01'', 20), (token ''2024'' ''01'', 14)],
          ex_entry (ascii ''B'') 13 [(token ''2024'' ''01'', 13)]]"
  by (simp add: handleCalculateSummary_ex_home) (simp add: summary_eval)

lemma summary_unnamed_merged_with_named:
  "handleCalculateSummary
     (ex_home [ex_part 5 [] 2 True 5, ex_part 7 (unnamedKey ''5'') 1 True 3])
   = Inr [ex_entry (unnamedKey ''5'') 38 [(token ''2024'' ''01'', 25), (token ''2024'' ''01'', 13)]]"
  by (simp add: handleCalculateSummary_ex_home) (simp add: summary_eval)

lemma summary_two_unnamed:
  "handleCalculateSummary
     (ex_home [ex_part 5 [] 2 True 5, ex_part 6 [] 1 True 3])
   = Inr [ex_entry (unnamedKey ''5'') 25 [(token ''2024'' ''01'', 25)],
          ex_entry (unnamedKey ''6'') 13 [(token ''2024'' ''01'', 13)]]"
  by (simp add: handleCalculateSummary_ex_home) (simp add: summary_eval)

lemma summary_inherited_name:
  "handleCalculateSummary (ex_home [ex_part 1 (ascii ''constructor'') 2 False 0]) = Inl TypeError"
  by (simp add: handleCalculateSummary_ex_home) (simp add: summary_eval)

lemma summary_numeric_names_first:
  "handleCalculateSummary
     (ex_home [ex_part 1 (ascii ''B'') 1 False 0, ex_part 2 (ascii ''12'') 1 False 0,
               ex_part 3 (ascii ''7'') 1 False 0])
   = Inr [ex_entry (ascii ''7'') 10 [(token ''2024'' ''01'', 10)],
          ex_entry (ascii ''12'') 10 [(token ''2024'' ''01'', 10)],
          ex_entry (ascii ''B'') 10 [(token ''2024'' ''01'', 10)]]"
  by (simp add: handleCalculateSummary_ex_home) (simp add: summary_eval)

text \<open>
  C5 (the code departs from the claim).  The summary is a plain object, and a family name
  is used as a property name of it without regard to the properties that every object
  inherits.  For a family named \<open>toString\<close> in a bill of the range, \<open>summary[familyName]\<close>
  finds the inherited function: no entry is made, the function has no \<open>monthlyBreakdown\<close>,
  and the \<open>push\<close> throws.  The aggregation ends there, and the contribution of the
  family, 2 lines at 10 and the stored cost of 5 of a disabled service, reaches no entry.
  Under another name the same participation gets the entry that the claim describes.
\<close>

theorem summary_inherited_name_no_contribution:
  "filteredBills (ex_home [ex_part 1 (ascii ''toString'') 2 False 5])
   = [ex_janBill [ex_part 1 (ascii ''toString'') 2 False 5]]
   \<and> handleCalculateSummary (ex_home [ex_part 1 (ascii ''toString'') 2 False 5]) = Inl TypeError
   \<and> handleCalculateSummary (ex_home [ex_part 1 (ascii ''Wang'') 2 False 5])
     = Inr [ex_entry (ascii ''Wang'') 25 [(token ''2024'' ''01'', 25)]]"
  by (simp add: handleCalculateSummary_ex_home filteredBills_ex_home) (simp add: summary_eval)

text \<open>
  Grouping, for the summaries that are produced: the entries are grouped by the key of a
  participation, its name when the name is not empty and the key made from its id when it
  is.  There is one entry for each key, every participation of the range has the entry of
  its key, and the total of an entry is the sum of the family totals of all participations
  with that key, whatever their ids, and of no others.
\<close>

lemma summary_grouping:
  assumes "handleCalculateSummary st = Inr summary"
  shows "distinct (map sr_name summary)
         \<and> (\<forall>p \<in> set (participations (filteredBills st)).
              (\<exists>e \<in> set summary. sr_name e = familyKey (snd p))
              \<and> (fam_name (snd p) \<noteq> [] \<longrightarrow> familyKey (snd p) = fam_name (snd p))
              \<and> (fam_name (snd p) = [] \<longrightarrow>
                   familyKey (snd p) = [cp_family1, cp_family2, 32] @ numberToString (fam_id (snd p))))
         \<and> (\<forall>e \<in> set summary.
              sr_totalCost e
              = sum_list (map (\<lambda>p. familyTotalCost (costPerLine (fst p)) (snd p))
                            (filter (\<lambda>p. familyKey (snd p) = sr_name e)
                               (participations (filteredBills st)))))"
proof (intro conjI ballI)
  show "distinct (map sr_name summary)"
    by (rule summary_entries(1) [OF assms])
next
  fix p assume "p \<in> set (participations (filteredBills st))"
  then show "\<exists>e \<in> set summary. sr_name e = familyKey (snd p)"
    by (rule summary_entries(3) [OF assms])
next
  fix p
  show "fam_name (snd p) \<noteq> [] \<longrightarrow> familyKey (snd p) = fam_name (snd p)"
    by (simp add: familyKey_def)
next
  fix p
  show "fam_name (snd p) = [] \<longrightarrow>
          familyKey (snd p) = [cp_family1, cp_family2, 32] @ numberToString (fam_id (snd p))"
    by (simp add: familyKey_def)
next
  fix e assume "e \<in> set summary"
  then have "sr_totalCost e
     = sum_list (map snd (contributionsTo (sr_name e) (participations (filteredBills st))))"
    using summary_entries(2) [OF assms] by simp
  also have "\<dots> = sum_list (map (\<lambda>p. familyTotalCost (costPerLine (fst p)) (snd p))
                            (filter (\<lambda>p. familyKey (snd p) = sr_name e)
                               (participations (filteredBills st))))"
    by (simp add: contributionsTo_def contribution_def familyTotalCost_def comp_def)
  finally show "sr_totalCost e
              = sum_list (map (\<lambda>p. familyTotalCost (costPerLine (fst p)) (snd p))
                            (filter (\<lambda>p. familyKey (snd p) = sr_name e)
                               (participations (filteredBills st))))" .
qed

text \<open>
  C6 (the code departs from the claim).  Two participations of a bill of the range with
  the same name, \<open>constructor\<close>, and the ids 1 and 2.  The name is a property that the
  summary object inherits, so no entry is made for it and the \<open>push\<close> of the first
  participation throws: the two are not merged into an entry, there is no summary.  Two
  participations that differ from these in the name only are merged into one entry with
  the sum of their totals, as the claim says.  The defect is the one of C5.
\<close>

theorem summary_inherited_name_not_merged:
  "fam_name (ex_part 1 (ascii ''constructor'') 2 False 0)
   = fam_name (ex_part 2 (ascii ''constructor'') 1 True 3)
   \<and> fam_id (ex_part 1 (ascii ''constructor'') 2 False 0)
     \<noteq> fam_id (ex_part 2 (ascii ''constructor'') 1 True 3)
   \<and> handleCalculateSummary
       (ex_home [ex_part 1 (ascii ''constructor'') 2 False 0,
                 ex_part 2 (ascii ''constructor'') 1 True 3])
     = Inl TypeError
   \<and> handleCalculateSummary
       (ex_home [ex_part 1 (ascii ''Li'') 2 False 0, ex_part 2 (ascii ''Li'') 1 True 3])
     = Inr [ex_entry (ascii ''Li'') 33 [(token ''2024'' ''01'', 20), (token ''2024'' ''01'', 13)]]"
  by (simp add: handleCalculateSummary_ex_home) (simp add: summary_eval)

text \<open>
  C10.  In every summary the aggregation produces, a participation with the empty name is
  entered under the key made of U+5BB6, U+5EAD, a space and its id, never under the empty
  name; two such participations with different ids have different entries.
\<close>

theorem summary_unnamed_by_id:
  assumes "handleCalculateSummary st = Inr summary"
    and "b1 \<in> set (filteredBills st)" "f1 \<in> set (families b1)" "fam_name f1 = []"
    and "b2 \<in> set (filteredBills st)" "f2 \<in> set (families b2)" "fam_name f2 = []"
    and "fam_id f1 \<noteq> fam_id f2"
  shows "\<exists>e1 \<in> set summary. \<exists>e2 \<in> set summary.
           sr_name e1 = [cp_family1, cp_family2, 32] @ numberToString (fam_id f1)
           \<and> sr_name e2 = [cp_family1, cp_family2, 32] @ numberToString (fam_id f2)
           \<and> sr_name e1 \<noteq> sr_name e2
           \<and> (\<forall>e \<in> set summary. sr_name e \<noteq> [])"
proof -
  let ?ps = "participations (filteredBills st)"
  have k1: "familyKey f1 = [cp_family1, cp_family2, 32] @ numberToString (fam_id f1)"
    and k2: "familyKey f2 = [cp_family1, cp_family2, 32] @ numberToString (fam_id f2)"
    using assms(4,7) by (simp_all add: familyKey_def)
  have p1: "(b1, f1) \<in> set ?ps" and p2: "(b2, f2) \<in> set ?ps"
    using assms(2,3,5,6) by (simp_all add: participations_iff)
  have "\<exists>e \<in> set summary. sr_name e = familyKey (snd (b1, f1))"
    and "\<exists>e \<in> set summary. sr_name e = familyKey (snd (b2, f2))"
    using summary_entries(3) [OF assms(1) p1] summary_entries(3) [OF assms(1) p2] by blast+
  then obtain e1 e2 where e: "e1 \<in> set summary" "sr_name e1 = familyKey f1"
      "e2 \<in> set summary" "sr_name e2 = familyKey f2"
    by auto
  have ne: "familyKey f1 \<noteq> familyKey f2"
    using familyKey_unnamed_inj [OF assms(4,7)] assms(8) by blast
  have nonempty: "\<forall>e \<in> set summary. sr_name e \<noteq> []"
  proof
    fix e assume "e \<in> set summary"
    then have "contributionsTo (sr_name e) ?ps \<noteq> []"
      using summary_entries(2) [OF assms(1)] by blast
    then obtain p where "familyKey (snd p) = sr_name e"
      by (auto simp add: contributionsTo_def filter_empty_conv)
    then show "sr_name e \<noteq> []"
      using familyKey_nonempty [of "snd p"] by simp
  qed
  show ?thesis
    using e ne nonempty k1 k2 by metis
qed

theorem summary_unnamed_by_id_witness:
  "handleCalculateSummary (ex_home [ex_part 5 [] 2 True 5, ex_part 6 [] 1 True 3])
   = Inr [ex_entry (unnamedKey ''5'') 25 [(token ''2024'' ''01'', 25)],
          ex_entry (unnamedKey ''6'') 13 [(token ''2024'' ''01'', 13)]]
   \<and> ex_janBill [ex_part 5 [] 2 True 5, ex_part 6 [] 1 True 3]
       \<in> set (filteredBills (ex_home [ex_part 5 [] 2 True 5, ex_part 6 [] 1 True 3]))
   \<and> fam_name (ex_part 5 [] 2 True 5) = [] \<and> fam_name (ex_part 6 [] 1 True 3) = []
   \<and> fam_id (ex_part 5 [] 2 True 5) \<noteq> fam_id (ex_part 6 [] 1 True 3)
   \<and> [cp_family1, cp_family2, 32] @ numberToString (fam_id (ex_part 5 [] 2 True 5))
     \<noteq> [cp_family1, cp_family2, 32] @ numberToString (fam_id (ex_part 6 [] 1 True 3))"
proof -
  let ?f1 = "ex_part 5 [] 2 True 5" and ?f2 = "ex_part 6 [] 1 True 3"
  let ?b = "ex_janBill [?f1, ?f2]"
  have run: "handleCalculateSummary (ex_home [?f1, ?f2])
   = Inr [ex_entry (unnamedKey ''5'') 25 [(token ''2024'' ''01'', 25)],
          ex_entry (unnamedKey ''6'') 13 [(token ''2024'' ''01'', 13)]]"
    by (rule summary_two_unnamed)
  have b: "?b \<in> set (filteredBills (ex_home [?f1, ?f2]))"
    by (simp add: filteredBills_ex_home)
  have f: "?f1 \<in> set (families ?b)" "?f2 \<in> set (families ?b)"
    by (simp_all add: ex_janBill_def)
  have n: "fam_name ?f1 = []" "fam_name ?f2 = []" and i: "fam_id ?f1 \<noteq> fam_id ?f2"
    by (simp_all add: ex_part_def)
  have keys: "[cp_family1, cp_family2, 32] @ numberToString (fam_id ?f1)
     \<noteq> [cp_family1, cp_family2, 32] @ numberToString (fam_id ?f2)"
    using summary_unnamed_by_id [OF run b f(1) n(1) b f(2) n(2) i] by metis
  show ?thesis
    by (intro conjI run b n i keys)
qed

end
